theory Spec2Isabelle
  imports Main "HOL-Library.Word" "HOL-Library.AList" "HOL-Library.Finite_Map"
begin

unbundle bit_operations_syntax

section \<open>Security checks (src/common/SecurityChecks.cpp)\<close>

subsection \<open>Paths\<close>

text \<open>
  A \<^verbatim>\<open>boost::filesystem::path\<close> in normal form: whether it starts at the root directory,
  and its file names in order. \<open>Path True []\<close> is \<^verbatim>\<open>/\<close>, \<open>Path True [''usr'', ''bin'']\<close> is
  \<^verbatim>\<open>/usr/bin\<close>, \<open>Path False [''a'']\<close> is the relative path \<^verbatim>\<open>a\<close> and \<open>Path False []\<close> is
  the empty path. Paths with \<^verbatim>\<open>.\<close>, \<^verbatim>\<open>..\<close>, repeated or trailing separators, and symbolic
  links, are outside the model.
\<close>

datatype path = Path (has_root: bool) (components: "string list")

definition empty_path :: path where
  "empty_path = Path False []"

text \<open>\<^verbatim>\<open>path::root_path()\<close>: \<^verbatim>\<open>/\<close> for an absolute path, the empty path for a relative one.\<close>

definition root_path :: "path \<Rightarrow> path" where
  "root_path p = Path (has_root p) []"

text \<open>
  \<^verbatim>\<open>path::parent_path()\<close>: the path without its last file name; the parent of \<^verbatim>\<open>/a\<close> is
  \<^verbatim>\<open>/\<close>, and the parent of \<^verbatim>\<open>/\<close>, of a single relative name and of the empty path is the
  empty path.
\<close>

definition parent_path :: "path \<Rightarrow> path" where
  "parent_path p =
     (if components p = [] then empty_path
      else Path (has_root p) (butlast (components p)))"

text \<open>\<^verbatim>\<open>operator/\<close> with relative file names on the right.\<close>

definition path_append :: "path \<Rightarrow> string list \<Rightarrow> path" where
  "path_append p names = Path (has_root p) (components p @ names)"

subsection \<open>The file system the checks look at\<close>

datatype file_type = regular_file | directory_file

type_synonym perms = "32 word"

record file_stat =
  st_uid :: nat
  st_gid :: nat
  st_type :: file_type
  st_perms :: perms

text \<open>
  The file system is the list of its entries, each with what \<^verbatim>\<open>stat(2)\<close> reports for it.
  The first entry of a path is the one that counts. The empty path names no file.
\<close>

type_synonym filesystem = "(path \<times> file_stat) list"

definition stat_of :: "filesystem \<Rightarrow> path \<Rightarrow> file_stat option" where
  "stat_of fs p = (if p = empty_path then None else map_of fs p)"

text \<open>\<^verbatim>\<open>boost::filesystem::exists\<close> and \<^verbatim>\<open>is_directory\<close>.\<close>

definition exists_path :: "filesystem \<Rightarrow> path \<Rightarrow> bool" where
  "exists_path fs p = (stat_of fs p \<noteq> None)"

definition is_directory :: "filesystem \<Rightarrow> path \<Rightarrow> bool" where
  "is_directory fs p =
     (case stat_of fs p of None \<Rightarrow> False | Some s \<Rightarrow> st_type s = directory_file)"

text \<open>
  \<^verbatim>\<open>boost::filesystem::status(path).permissions()\<close>: the mode bits of the file;
  \<^verbatim>\<open>no_perms\<close> (0) for a path that is not found.
\<close>

definition no_perms :: perms where
  "no_perms = 0"

definition permissions :: "filesystem \<Rightarrow> path \<Rightarrow> perms" where
  "permissions fs p = (case stat_of fs p of None \<Rightarrow> no_perms | Some s \<Rightarrow> st_perms s)"

text \<open>
  \<^verbatim>\<open>recursive_directory_iterator{path}\<close>: every entry below \<open>path\<close>, at any depth, in the
  order of the file system's listing.
\<close>

definition is_below :: "path \<Rightarrow> path \<Rightarrow> bool" where
  "is_below p q \<longleftrightarrow>
     has_root q = has_root p \<and>
     length (components p) < length (components q) \<and>
     take (length (components p)) (components q) = components p"

definition recursive_directory_iterator :: "filesystem \<Rightarrow> path \<Rightarrow> path list" where
  "recursive_directory_iterator fs p = filter (is_below p) (map fst fs)"

subsection \<open>Errors\<close>

text \<open>
  \<^verbatim>\<open>SARUS_THROW_ERROR\<close> raises a \<^verbatim>\<open>common::Error\<close> with a message; \<^verbatim>\<open>SARUS_RETHROW_ERROR\<close>
  raises again the error it caught, with one more message on top of it. The macros are
  declared in common/Error.hpp; the first messages are those of SecurityChecks.cpp and of
  CommandObjectsFactory.cpp, the last five name the failures of the parts that are modelled
  from the specification.
\<close>

datatype message =
    FailedToCheckUntamperable path
  | MustBeOwnedByRoot path nat nat
  | CannotBeGroupOrWorldWritable path
  | FailedToCheckOCIHook path
  | InvalidCommandName string
  | FailedToRetrieveOwner path
  | InvalidSlurmEnvironment
  | SynchronizationTimeout
  | HostLibcNotFound
  | NotABICompatible

datatype error = Thrown message | Rethrown error message

subsection \<open>The two primitive checks\<close>

text \<open>
  \<^verbatim>\<open>common::getOwner\<close> is defined in common/Utility.cpp; the checks take it as the parameter
  \<open>owner_of\<close>, which gives the uid and gid of a path or the error it throws.
\<close>

type_synonym get_owner = "path \<Rightarrow> error + (nat \<times> nat)"

definition checkThatPathIsRootOwned :: "get_owner \<Rightarrow> path \<Rightarrow> error + unit" where
  "checkThatPathIsRootOwned owner_of p =
     (case owner_of p of
        Inl e \<Rightarrow> Inl (Rethrown e (FailedToCheckUntamperable p))
      | Inr (uid, gid) \<Rightarrow>
          if uid \<noteq> 0 then Inl (Thrown (MustBeOwnedByRoot p uid gid)) else Inr ())"

definition checkThatPathIsNotGroupWritableOrWorldWritable ::
    "filesystem \<Rightarrow> path \<Rightarrow> error + unit" where
  "checkThatPathIsNotGroupWritableOrWorldWritable fs p =
     (let isGroupWritable = permissions fs p AND push_bit 4 1;
          isWorldWritable = permissions fs p AND push_bit 1 1
      in if isGroupWritable \<noteq> 0 \<or> isWorldWritable \<noteq> 0
         then Inl (Thrown (CannotBeGroupOrWorldWritable p))
         else Inr ())"

text \<open>
  The POSIX mode bits of \<^verbatim>\<open><sys/stat.h>\<close>: \<^verbatim>\<open>S_IWGRP\<close> is octal 0020 and \<^verbatim>\<open>S_IWOTH\<close> is
  octal 0002.
\<close>

definition S_IWGRP :: perms where
  "S_IWGRP = 2 * 8"

definition S_IWOTH :: perms where
  "S_IWOTH = 2"

subsection \<open>Untamperable paths\<close>

text \<open>
  The do-while loop of \<^verbatim>\<open>checkThatPathIsUntamperable\<close>: check \<open>parentPath\<close>, step to its
  parent, and go on while that parent exists and is not \<open>rootPath\<close>.
\<close>

function checkParentPaths :: "get_owner \<Rightarrow> filesystem \<Rightarrow> path \<Rightarrow> path \<Rightarrow> error + unit" where
  "checkParentPaths owner_of fs rootPath parentPath =
     (case checkThatPathIsRootOwned owner_of parentPath of
        Inl e \<Rightarrow> Inl e
      | Inr _ \<Rightarrow>
         (case checkThatPathIsNotGroupWritableOrWorldWritable fs parentPath of
            Inl e \<Rightarrow> Inl e
          | Inr _ \<Rightarrow>
              if exists_path fs (parent_path parentPath) \<and> parent_path parentPath \<noteq> rootPath
              then checkParentPaths owner_of fs rootPath (parent_path parentPath)
              else Inr ()))"
  by pat_completeness auto
termination
proof (relation "measure (\<lambda>(g, fs, r, p). length (components p) + (if has_root p then 1 else 0))")
  show "wf (measure (\<lambda>(g, fs, r, p). length (components p) + (if has_root p then 1 else 0)))"
    by simp
next
  fix owner_of :: get_owner and fs :: filesystem and rootPath parentPath :: path
    and x2 :: unit and x2a :: unit
  assume "exists_path fs (parent_path parentPath) \<and> parent_path parentPath \<noteq> rootPath"
  then have ex: "parent_path parentPath \<noteq> empty_path"
    by (auto simp: exists_path_def stat_of_def)
  then have ne: "components parentPath \<noteq> []"
    by (auto simp: parent_path_def)
  then show "((owner_of, fs, rootPath, parent_path parentPath), (owner_of, fs, rootPath, parentPath))
      \<in> measure (\<lambda>(g, fs, r, p). length (components p) + (if has_root p then 1 else 0))"
    by (simp add: parent_path_def)
qed

declare checkParentPaths.simps [simp del]

text \<open>The loop over the entries below a directory.\<close>

fun checkEntries :: "get_owner \<Rightarrow> filesystem \<Rightarrow> path list \<Rightarrow> error + unit" where
  "checkEntries owner_of fs [] = Inr ()"
| "checkEntries owner_of fs (entry # entries) =
     (case checkThatPathIsRootOwned owner_of entry of
        Inl e \<Rightarrow> Inl e
      | Inr _ \<Rightarrow>
         (case checkThatPathIsNotGroupWritableOrWorldWritable fs entry of
            Inl e \<Rightarrow> Inl e
          | Inr _ \<Rightarrow> checkEntries owner_of fs entries))"

definition checkThatPathIsUntamperable :: "get_owner \<Rightarrow> filesystem \<Rightarrow> path \<Rightarrow> error + unit" where
  "checkThatPathIsUntamperable owner_of fs p =
     (case checkParentPaths owner_of fs (root_path p) p of
        Inl e \<Rightarrow> Inl e
      | Inr _ \<Rightarrow>
          if is_directory fs p
          then checkEntries owner_of fs (recursive_directory_iterator fs p)
          else Inr ())"

text \<open>
  Modelled from the spec: \<^verbatim>\<open>common::getOwner\<close> (common/Utility.cpp, which is not among the
  sources) gives the "owning UID" of the spec, with the gid: what \<^verbatim>\<open>stat(2)\<close> reports for
  the path, and an error for a path that has no entry.
\<close>

definition getOwner :: "filesystem \<Rightarrow> get_owner" where
  "getOwner fs p =
     (case stat_of fs p of
        None \<Rightarrow> Inl (Thrown (FailedToRetrieveOwner p))
      | Some s \<Rightarrow> Inr (st_uid s, st_gid s))"

subsection \<open>The configuration and the checks that depend on it\<close>

text \<open>
  What the checks read of \<^verbatim>\<open>config->json\<close>, after validation against the schema: the three
  binaries, \<^verbatim>\<open>prefixDir\<close>, the \<^verbatim>\<open>securityChecks\<close> flag, and the optional \<^verbatim>\<open>OCIHooks\<close> object,
  whose members map a hook type to an array of hooks.
\<close>

record oci_hook =
  hook_path :: path

record config =
  mksquashfsPath :: path
  initPath :: path
  runcPath :: path
  prefixDir :: path
  securityChecks :: bool
  OCIHooks :: "(string \<times> oci_hook list) list option"

text \<open>Statements in sequence: an error thrown by the first skips the second.\<close>

definition andThen :: "error + unit \<Rightarrow> error + unit \<Rightarrow> error + unit" where
  "andThen r k = (case r of Inl e \<Rightarrow> Inl e | Inr _ \<Rightarrow> k)"

definition checkThatBinariesInSarusJsonAreUntamperable ::
    "get_owner \<Rightarrow> filesystem \<Rightarrow> config \<Rightarrow> error + unit" where
  "checkThatBinariesInSarusJsonAreUntamperable owner_of fs cfg =
     andThen (checkThatPathIsUntamperable owner_of fs (mksquashfsPath cfg))
    (andThen (checkThatPathIsUntamperable owner_of fs (initPath cfg))
             (checkThatPathIsUntamperable owner_of fs (runcPath cfg)))"

text \<open>The loop over the hooks of one type: an error is rethrown with the hook's path.\<close>

fun checkHooks :: "get_owner \<Rightarrow> filesystem \<Rightarrow> oci_hook list \<Rightarrow> error + unit" where
  "checkHooks owner_of fs [] = Inr ()"
| "checkHooks owner_of fs (hook # hooks) =
     (case checkThatPathIsUntamperable owner_of fs (hook_path hook) of
        Inl e \<Rightarrow> Inl (Rethrown e (FailedToCheckOCIHook (hook_path hook)))
      | Inr _ \<Rightarrow> checkHooks owner_of fs hooks)"

text \<open>
  \<^verbatim>\<open>checkThatOCIHooksAreUntamperableByType\<close> reads \<^verbatim>\<open>config->json["OCIHooks"]\<close>, which its
  only caller has found to be there: \<open>hooksObject\<close> is that member.
\<close>

definition checkThatOCIHooksAreUntamperableByType ::
    "get_owner \<Rightarrow> filesystem \<Rightarrow> (string \<times> oci_hook list) list \<Rightarrow> string \<Rightarrow> error + unit" where
  "checkThatOCIHooksAreUntamperableByType owner_of fs hooksObject hookType =
     (case map_of hooksObject hookType of
        None \<Rightarrow> Inr ()
      | Some hooks \<Rightarrow> checkHooks owner_of fs hooks)"

definition checkThatOCIHooksAreUntamperable ::
    "get_owner \<Rightarrow> filesystem \<Rightarrow> config \<Rightarrow> error + unit" where
  "checkThatOCIHooksAreUntamperable owner_of fs cfg =
     (case OCIHooks cfg of
        None \<Rightarrow> Inr ()
      | Some hooksObject \<Rightarrow>
          andThen (checkThatOCIHooksAreUntamperableByType owner_of fs hooksObject ''prestart'')
         (andThen (checkThatOCIHooksAreUntamperableByType owner_of fs hooksObject ''poststart'')
                  (checkThatOCIHooksAreUntamperableByType owner_of fs hooksObject ''poststop'')))"

definition runSecurityChecks ::
    "get_owner \<Rightarrow> filesystem \<Rightarrow> config \<Rightarrow> path \<Rightarrow> error + unit" where
  "runSecurityChecks owner_of fs cfg sarusInstallationPrefixDir =
     (let configFilename = path_append sarusInstallationPrefixDir [''etc'', ''sarus.json''];
          configSchemaFilename =
            path_append sarusInstallationPrefixDir [''etc'', ''sarus.schema.json'']
      in andThen (checkThatPathIsRootOwned owner_of configFilename)
        (andThen (checkThatPathIsNotGroupWritableOrWorldWritable fs configFilename)
        (andThen (checkThatPathIsRootOwned owner_of configSchemaFilename)
        (andThen (checkThatPathIsNotGroupWritableOrWorldWritable fs configSchemaFilename)
          (if \<not> securityChecks cfg then Inr ()
           else
             andThen (checkThatBinariesInSarusJsonAreUntamperable owner_of fs cfg)
            (andThen (checkThatOCIHooksAreUntamperable owner_of fs cfg)
            (andThen (checkThatPathIsUntamperable owner_of fs
                        (path_append (prefixDir cfg) [''openssh'']))
                     (checkThatPathIsUntamperable owner_of fs
                        (path_append (prefixDir cfg) [''bin'', ''ssh_hook''])))))))))"

subsection \<open>What the specification asks of a path\<close>

text \<open>
  An entry passes when its owner is found and is uid 0, and its mode has neither the
  group-write nor the world-write bit.
\<close>

definition root_owned :: "get_owner \<Rightarrow> path \<Rightarrow> bool" where
  "root_owned owner_of p \<longleftrightarrow>
     (case owner_of p of Inl e \<Rightarrow> False | Inr (uid, gid) \<Rightarrow> uid = 0)"

definition not_group_or_world_writable :: "filesystem \<Rightarrow> path \<Rightarrow> bool" where
  "not_group_or_world_writable fs p \<longleftrightarrow>
     permissions fs p AND S_IWGRP = 0 \<and> permissions fs p AND S_IWOTH = 0"

definition entry_ok :: "get_owner \<Rightarrow> filesystem \<Rightarrow> path \<Rightarrow> bool" where
  "entry_ok owner_of fs p \<longleftrightarrow> root_owned owner_of p \<and> not_group_or_world_writable fs p"

text \<open>
  The path and its ancestors up to the file system root, the root included: every prefix
  of the path.
\<close>

definition ancestors_up_to_root :: "path \<Rightarrow> path list" where
  "ancestors_up_to_root p =
     map (\<lambda>k. Path (has_root p) (take k (components p))) [0 ..< Suc (length (components p))]"

text \<open>
  The path and its ancestors below the root: every prefix with at least one file name,
  and the path itself when it has none (the root directory passed as the path).
\<close>

definition ancestors_below_root :: "path \<Rightarrow> path list" where
  "ancestors_below_root p =
     (if components p = [] then [p]
      else map (\<lambda>k. Path (has_root p) (take k (components p)))
             [1 ..< Suc (length (components p))])"

text \<open>
  In a file system, the parent directory of every entry is an entry too (the root
  directory and the empty path left aside).
\<close>

definition parents_exist :: "filesystem \<Rightarrow> bool" where
  "parents_exist fs \<longleftrightarrow>
     (\<forall>p \<in> set (map fst fs).
        components (parent_path p) = [] \<or> exists_path fs (parent_path p))"

subsection \<open>What the specification asks of a run of the security checks\<close>

text \<open>
  The paths of the hooks the configuration declares, for the three hook types of the
  admin configuration.
\<close>

definition configured_hook_paths :: "config \<Rightarrow> path list" where
  "configured_hook_paths cfg =
     (case OCIHooks cfg of
        None \<Rightarrow> []
      | Some hooksObject \<Rightarrow>
          concat (map (\<lambda>hookType. case map_of hooksObject hookType of
                                      None \<Rightarrow> []
                                    | Some hooks \<Rightarrow> map hook_path hooks)
                      [''prestart'', ''poststart'', ''poststop'']))"

text \<open>
  The paths of the untamperability sweeps: the three binaries, the hooks, and
  \<^verbatim>\<open>openssh\<close> and \<^verbatim>\<open>bin/ssh_hook\<close> under the configured prefix directory.
\<close>

definition sweep_paths :: "config \<Rightarrow> path list" where
  "sweep_paths cfg =
     [mksquashfsPath cfg, initPath cfg, runcPath cfg] @ configured_hook_paths cfg @
     [path_append (prefixDir cfg) [''openssh''],
      path_append (prefixDir cfg) [''bin'', ''ssh_hook'']]"

subsection \<open>Example file systems\<close>

definition root_dir_stat :: file_stat where
  "root_dir_stat = \<lparr>st_uid = 0, st_gid = 0, st_type = directory_file, st_perms = 493\<rparr>"

definition root_file_stat :: file_stat where
  "root_file_stat = \<lparr>st_uid = 0, st_gid = 0, st_type = regular_file, st_perms = 420\<rparr>"

text \<open>
  A root directory that everybody may write to (mode 0777), holding a regular file
  \<^verbatim>\<open>/a\<close> of root with mode 0644.
\<close>

definition fs_open_root :: filesystem where
  "fs_open_root =
     [(Path True [], root_dir_stat\<lparr>st_perms := 511\<rparr>),
      (Path True [''a''], root_file_stat)]"

text \<open>
  An installation under \<^verbatim>\<open>/opt/sarus\<close>, all of root: the two configuration files, the
  binaries, one hook, the \<^verbatim>\<open>openssh\<close> directory with a file in it, and the ssh hook.
\<close>

definition fs_install :: filesystem where
  "fs_install =
     [(Path True [], root_dir_stat),
      (Path True [''opt''], root_dir_stat),
      (Path True [''opt'', ''sarus''], root_dir_stat),
      (Path True [''opt'', ''sarus'', ''etc''], root_dir_stat),
      (Path True [''opt'', ''sarus'', ''etc'', ''sarus.json''], root_file_stat),
      (Path True [''opt'', ''sarus'', ''etc'', ''sarus.schema.json''], root_file_stat),
      (Path True [''opt'', ''sarus'', ''bin''], root_dir_stat),
      (Path True [''opt'', ''sarus'', ''bin'', ''mksquashfs''], root_file_stat),
      (Path True [''opt'', ''sarus'', ''bin'', ''init''], root_file_stat),
      (Path True [''opt'', ''sarus'', ''bin'', ''runc''], root_file_stat),
      (Path True [''opt'', ''sarus'', ''bin'', ''ssh_hook''], root_file_stat),
      (Path True [''opt'', ''sarus'', ''bin'', ''glibc_hook''], root_file_stat),
      (Path True [''opt'', ''sarus'', ''openssh''], root_dir_stat),
      (Path True [''opt'', ''sarus'', ''openssh'', ''sshd''], root_file_stat)]"

definition cfg_install :: config where
  "cfg_install =
     \<lparr>mksquashfsPath = Path True [''opt'', ''sarus'', ''bin'', ''mksquashfs''],
      initPath = Path True [''opt'', ''sarus'', ''bin'', ''init''],
      runcPath = Path True [''opt'', ''sarus'', ''bin'', ''runc''],
      prefixDir = Path True [''opt'', ''sarus''],
      securityChecks = True,
      OCIHooks = Some [(''prestart'',
         [\<lparr>hook_path = Path True [''opt'', ''sarus'', ''bin'', ''glibc_hook'']\<rparr>])]\<rparr>"

section \<open>The factory of command objects (src/cli/CommandObjectsFactory.cpp and .hpp)\<close>

text \<open>
  The command classes are defined in files that are not among the sources. A command
  object is represented by the constructor call that makes it: the class, and the
  arguments when the constructor takes them. \<open>'a\<close> stands for the groups of command
  line arguments and \<open>'g\<close> for the configuration.
\<close>

datatype command_class =
    CommandHelp | CommandImages | CommandLoad | CommandPull
  | CommandRmi | CommandRun | CommandSshKeygen | CommandVersion

datatype ('a, 'g) command =
    New command_class
  | NewWithArguments command_class 'a 'g
  | CommandHelpOfCommand "('a, 'g) command"

text \<open>
  The two \<^verbatim>\<open>std::unordered_map\<close> members, \<^verbatim>\<open>map\<close> and \<^verbatim>\<open>mapWithArguments\<close>, as association
  lists. The container iterates its keys in an order of its own, which the code does not
  fix; the order of the lists is not that order, and nothing below depends on it. (The
  first is named \<open>map_plain\<close> here: \<open>map\<close> is the list function of HOL.)
\<close>

record ('a, 'g) factory =
  map_plain :: "(string \<times> (unit \<Rightarrow> ('a, 'g) command)) list"
  mapWithArguments :: "(string \<times> ('a \<Rightarrow> 'g \<Rightarrow> ('a, 'g) command)) list"

definition empty_factory :: "('a, 'g) factory" where
  "empty_factory = \<lparr>map_plain = [], mapWithArguments = []\<rparr>"

text \<open>\<^verbatim>\<open>addCommand<CommandType>(commandName)\<close>: \<^verbatim>\<open>operator[]\<close> inserts the key or overwrites its value.\<close>

definition addCommand ::
    "command_class \<Rightarrow> string \<Rightarrow> ('a, 'g) factory \<Rightarrow> ('a, 'g) factory" where
  "addCommand CommandType commandName f =
     \<lparr>map_plain = AList.update commandName (\<lambda>_. New CommandType) (map_plain f),
      mapWithArguments =
        AList.update commandName
          (\<lambda>commandArgsGroups config. NewWithArguments CommandType commandArgsGroups config)
          (mapWithArguments f)\<rparr>"

text \<open>The constructor.\<close>

definition CommandObjectsFactory :: "('a, 'g) factory" where
  "CommandObjectsFactory =
     addCommand CommandVersion ''version''
    (addCommand CommandSshKeygen ''ssh-keygen''
    (addCommand CommandRun ''run''
    (addCommand CommandRmi ''rmi''
    (addCommand CommandPull ''pull''
    (addCommand CommandLoad ''load''
    (addCommand CommandImages ''images''
    (addCommand CommandHelp ''help'' empty_factory)))))))"

definition isValidCommandName :: "('a, 'g) factory \<Rightarrow> string \<Rightarrow> bool" where
  "isValidCommandName f commandName \<longleftrightarrow> map_of (map_plain f) commandName \<noteq> None"

text \<open>
  \<^verbatim>\<open>getCommandNames()\<close>: the keys of \<^verbatim>\<open>map\<close>, each once, in the order the container iterates
  them; of the list returned here only the names in it are those of the program, not
  their order.
\<close>

definition getCommandNames :: "('a, 'g) factory \<Rightarrow> string list" where
  "getCommandNames f = map fst (map_plain f)"

text \<open>
  A call of the factory returns an object or throws an error; \<open>DereferencesEnd\<close> stands
  for the third thing the code could do, calling through the end iterator that \<^verbatim>\<open>find\<close>
  returns for a missing key.
\<close>

datatype factory_failure = Throws error | DereferencesEnd

definition makeCommandObject ::
    "('a, 'g) factory \<Rightarrow> string \<Rightarrow> factory_failure + ('a, 'g) command" where
  "makeCommandObject f commandName =
     (if \<not> isValidCommandName f commandName
      then Inl (Throws (Thrown (InvalidCommandName commandName)))
      else (case map_of (map_plain f) commandName of
              None \<Rightarrow> Inl DereferencesEnd
            | Some construct \<Rightarrow> Inr (construct ())))"

text \<open>The overload with the arguments and the configuration.\<close>

definition makeCommandObjectWithArguments ::
    "('a, 'g) factory \<Rightarrow> string \<Rightarrow> 'a \<Rightarrow> 'g \<Rightarrow> factory_failure + ('a, 'g) command" where
  "makeCommandObjectWithArguments f commandName commandArgsGroups config =
     (if \<not> isValidCommandName f commandName
      then Inl (Throws (Thrown (InvalidCommandName commandName)))
      else (case map_of (mapWithArguments f) commandName of
              None \<Rightarrow> Inl DereferencesEnd
            | Some construct \<Rightarrow> Inr (construct commandArgsGroups config)))"

definition makeCommandObjectHelpOfCommand ::
    "('a, 'g) factory \<Rightarrow> string \<Rightarrow> factory_failure + ('a, 'g) command" where
  "makeCommandObjectHelpOfCommand f commandName =
     (case makeCommandObject f commandName of
        Inl e \<Rightarrow> Inl e
      | Inr commandObject \<Rightarrow> Inr (CommandHelpOfCommand commandObject))"

text \<open>Any factory that calls of \<^verbatim>\<open>addCommand\<close> can build, the first call first.\<close>

fun addCommands ::
    "(command_class \<times> string) list \<Rightarrow> ('a, 'g) factory \<Rightarrow> ('a, 'g) factory" where
  "addCommands [] f = f"
| "addCommands ((CommandType, commandName) # calls) f =
     addCommands calls (addCommand CommandType commandName f)"

section \<open>The Slurm global synchronisation hook (src/hooks/slurm_global_sync)\<close>

text \<open>
  Of this hook the sources hold the test, test/test_hook.cpp; Hook.cpp and the helpers of
  common/Utility.cpp it calls are not among them. The hook is modelled from the
  specification, with the names the test calls.
\<close>

subsection \<open>The environment of the container\<close>

text \<open>
  Modelled from the spec: an entry of \<^verbatim>\<open>process.env\<close> is a string \<^verbatim>\<open>KEY=VALUE\<close>;
  \<^verbatim>\<open>parseEnvironmentVariable\<close> (common/Utility.cpp) splits it at the first \<^verbatim>\<open>=\<close>.
\<close>

definition parseEnvironmentVariable :: "string \<Rightarrow> string \<times> string" where
  "parseEnvironmentVariable variable =
     (takeWhile (\<lambda>c. c \<noteq> CHR ''='') variable,
      drop 1 (dropWhile (\<lambda>c. c \<noteq> CHR ''='') variable))"

text \<open>Modelled from the spec: \<^verbatim>\<open>lookupEnv(name)\<close> in the container's \<^verbatim>\<open>process.env\<close>.\<close>

definition lookupEnv :: "string list \<Rightarrow> string \<Rightarrow> string option" where
  "lookupEnv env name = map_of (map parseEnvironmentVariable env) name"

text \<open>
  Modelled from the spec: the hook is active when \<^verbatim>\<open>SARUS_SLURM_GLOBAL_SYNC_HOOK=1\<close> is
  present in \<^verbatim>\<open>process.env\<close> and the four variables \<^verbatim>\<open>SLURM_JOB_ID\<close>, \<^verbatim>\<open>SLURM_STEPID\<close>,
  \<^verbatim>\<open>SLURM_PROCID\<close> and \<^verbatim>\<open>SLURM_NTASKS\<close> are all set.
\<close>

definition isHookEnabled :: "string list \<Rightarrow> bool" where
  "isHookEnabled env \<longleftrightarrow>
     ''SARUS_SLURM_GLOBAL_SYNC_HOOK=1'' \<in> set env \<and>
     lookupEnv env ''SLURM_JOB_ID'' \<noteq> None \<and>
     lookupEnv env ''SLURM_STEPID'' \<noteq> None \<and>
     lookupEnv env ''SLURM_PROCID'' \<noteq> None \<and>
     lookupEnv env ''SLURM_NTASKS'' \<noteq> None"

text \<open>
  Modelled from the spec: \<^verbatim>\<open>SLURM_NTASKS = N\<close> is a number. The value of the variable is
  read as a decimal numeral; the spec does not say what happens when it is not one, and
  the model then fails the launch.
\<close>

definition digit_of :: "char \<Rightarrow> nat option" where
  "digit_of c =
     (if (48::nat) \<le> of_char c \<and> (of_char c :: nat) \<le> 57 then Some (of_char c - 48) else None)"

text \<open>Modelled from the spec: the digits of the numeral, read from the left.\<close>

fun decimal_from :: "nat \<Rightarrow> string \<Rightarrow> nat option" where
  "decimal_from acc [] = Some acc"
| "decimal_from acc (c # cs) =
     (case digit_of c of None \<Rightarrow> None | Some d \<Rightarrow> decimal_from (10 * acc + d) cs)"

text \<open>Modelled from the spec: the number \<^verbatim>\<open>N\<close> of \<^verbatim>\<open>SLURM_NTASKS = N\<close>; no digits, no number.\<close>

definition decimal :: "string \<Rightarrow> nat option" where
  "decimal s = (if s = [] then None else decimal_from 0 s)"

subsection \<open>The hook and the shared file system\<close>

text \<open>
  Modelled from the spec: what the hook knows after \<^verbatim>\<open>loadConfigs\<close>: the local repository
  of the user, the user's uid and gid, and the four Slurm variables.
\<close>

record hook =
  localRepositoryDir :: path
  userIdentity :: "nat \<times> nat"
  slurmJobID :: string
  slurmStepID :: string
  slurmProcID :: string
  slurmNTasks :: nat

text \<open>
  Modelled from the spec: \<^verbatim>\<open>loadConfigs()\<close> reads the four Slurm variables with
  \<^verbatim>\<open>lookupEnv\<close>; it has nothing to load when one is missing.
\<close>

definition loadConfigs :: "path \<Rightarrow> nat \<times> nat \<Rightarrow> string list \<Rightarrow> hook option" where
  "loadConfigs localRepo user env =
     (case (lookupEnv env ''SLURM_JOB_ID'', lookupEnv env ''SLURM_STEPID'',
            lookupEnv env ''SLURM_PROCID'', lookupEnv env ''SLURM_NTASKS'') of
        (Some jobID, Some stepID, Some procID, Some ntasks) \<Rightarrow>
          (case decimal ntasks of
             None \<Rightarrow> None
           | Some n \<Rightarrow>
               Some \<lparr>localRepositoryDir = localRepo, userIdentity = user, slurmJobID = jobID,
                     slurmStepID = stepID, slurmProcID = procID, slurmNTasks = n\<rparr>)
      | _ \<Rightarrow> None)"

text \<open>
  Modelled from the spec: the persisted layout
  \<^verbatim>\<open><localRepo>/slurm_global_sync/slurm-jobid-<J>-stepid-<S>/{arrival,departure}/slurm-procid-<N>\<close>.
\<close>

definition syncDir :: "hook \<Rightarrow> path" where
  "syncDir h =
     path_append (localRepositoryDir h)
       [''slurm_global_sync'', ''slurm-jobid-'' @ slurmJobID h @ ''-stepid-'' @ slurmStepID h]"

text \<open>Modelled from the spec: the directory \<^verbatim>\<open>arrival\<close> of the layout.\<close>

definition syncDirArrival :: "hook \<Rightarrow> path" where
  "syncDirArrival h = path_append (syncDir h) [''arrival'']"

text \<open>Modelled from the spec: the directory \<^verbatim>\<open>departure\<close> of the layout.\<close>

definition syncDirDeparture :: "hook \<Rightarrow> path" where
  "syncDirDeparture h = path_append (syncDir h) [''departure'']"

text \<open>Modelled from the spec: the file \<^verbatim>\<open>arrival/slurm-procid-<P>\<close> of this process.\<close>

definition syncFileArrival :: "hook \<Rightarrow> path" where
  "syncFileArrival h = path_append (syncDirArrival h) [''slurm-procid-'' @ slurmProcID h]"

text \<open>Modelled from the spec: the file \<^verbatim>\<open>departure/slurm-procid-<P>\<close> of this process.\<close>

definition syncFileDeparture :: "hook \<Rightarrow> path" where
  "syncFileDeparture h = path_append (syncDirDeparture h) [''slurm-procid-'' @ slurmProcID h]"

text \<open>
  Modelled from the spec: the file system the processes of a job step share: its files,
  each with the uid and gid of its owner. Directories are not entries of their own: a
  directory is there when a file is in it.
\<close>

type_synonym shared_files = "(path, nat \<times> nat) fmap"

text \<open>Modelled from the spec: "create-if-not-exists", with the owner given.\<close>

definition createFileIfNecessary :: "path \<Rightarrow> nat \<times> nat \<Rightarrow> shared_files \<Rightarrow> shared_files" where
  "createFileIfNecessary file owner files =
     (if file |\<in>| fmdom files then files else fmupd file owner files)"

text \<open>
  Modelled from the spec: \<^verbatim>\<open>signalArrival()\<close> creates \<^verbatim>\<open><sync>/arrival/slurm-procid-<P>\<close>,
  owned by the invoking user.
\<close>

definition signalArrival :: "hook \<Rightarrow> shared_files \<Rightarrow> shared_files" where
  "signalArrival h files = createFileIfNecessary (syncFileArrival h) (userIdentity h) files"

text \<open>
  Modelled from the spec: \<^verbatim>\<open>signalDeparture()\<close>, the "symmetric pair for departure".
\<close>

definition signalDeparture :: "hook \<Rightarrow> shared_files \<Rightarrow> shared_files" where
  "signalDeparture h files = createFileIfNecessary (syncFileDeparture h) (userIdentity h) files"

text \<open>Modelled from the spec: the entries of a directory: the files right in it.\<close>

definition directory_entries :: "shared_files \<Rightarrow> path \<Rightarrow> path fset" where
  "directory_entries files dir =
     ffilter (\<lambda>p. components p \<noteq> [] \<and> parent_path p = dir) (fmdom files)"

text \<open>Modelled from the spec: the "directory entry count" of a directory.\<close>

definition countFilesInDirectory :: "shared_files \<Rightarrow> path \<Rightarrow> nat" where
  "countFilesInDirectory files dir = fcard (directory_entries files dir)"

text \<open>
  Modelled from the spec: \<^verbatim>\<open>allInstancesArrived()\<close>: "directory entry count in \<^verbatim>\<open>arrival/\<close>
  equals \<^verbatim>\<open>SLURM_NTASKS\<close>".
\<close>

definition allInstancesArrived :: "hook \<Rightarrow> shared_files \<Rightarrow> bool" where
  "allInstancesArrived h files \<longleftrightarrow>
     countFilesInDirectory files (syncDirArrival h) = slurmNTasks h"

text \<open>Modelled from the spec: \<^verbatim>\<open>allInstancesDeparted()\<close>, "symmetric for departure".\<close>

definition allInstancesDeparted :: "hook \<Rightarrow> shared_files \<Rightarrow> bool" where
  "allInstancesDeparted h files \<longleftrightarrow>
     countFilesInDirectory files (syncDirDeparture h) = slurmNTasks h"

text \<open>
  Modelled from the spec: "waiting is a busy-poll with bounded sleep and a deadline after
  which the hook fails the launch". Between two polls the other processes of the job step
  act on the shared files: \<open>others\<close> lists what they do during each sleep, and its end is
  the deadline.
\<close>

fun waitUntil ::
    "(shared_files \<Rightarrow> bool) \<Rightarrow> (shared_files \<Rightarrow> shared_files) list \<Rightarrow> shared_files
       \<Rightarrow> error + (shared_files \<times> (shared_files \<Rightarrow> shared_files) list)" where
  "waitUntil allThere [] files =
     (if allThere files then Inr (files, []) else Inl (Thrown SynchronizationTimeout))"
| "waitUntil allThere (other # others) files =
     (if allThere files then Inr (files, other # others)
      else waitUntil allThere others (other files))"

text \<open>
  Modelled from the spec: the state machine of one process,
  INIT, ARRIVED, ALL_ARRIVED, DEPARTED, ALL_DEPARTED, run only when the hook is active.
\<close>

definition performSynchronization ::
    "path \<Rightarrow> nat \<times> nat \<Rightarrow> string list \<Rightarrow> (shared_files \<Rightarrow> shared_files) list \<Rightarrow> shared_files
       \<Rightarrow> error + shared_files" where
  "performSynchronization localRepo user env others files =
     (if \<not> isHookEnabled env then Inr files
      else
        (case loadConfigs localRepo user env of
           None \<Rightarrow> Inl (Thrown InvalidSlurmEnvironment)
         | Some h \<Rightarrow>
            (case waitUntil (allInstancesArrived h) others (signalArrival h files) of
               Inl e \<Rightarrow> Inl e
             | Inr (arrived, others') \<Rightarrow>
                (case waitUntil (allInstancesDeparted h) others' (signalDeparture h arrived) of
                   Inl e \<Rightarrow> Inl e
                 | Inr (departed, _) \<Rightarrow> Inr departed))))"

text \<open>
  Modelled from the spec: \<^verbatim>\<open>cleanupSyncDir()\<close>: only the process with \<^verbatim>\<open>PROCID == 0\<close> removes
  the tree of the sync directory.
\<close>

definition cleanupSyncDir :: "hook \<Rightarrow> shared_files \<Rightarrow> shared_files" where
  "cleanupSyncDir h files =
     (if slurmProcID h = ''0'' then fmfilter (\<lambda>p. \<not> is_below (syncDir h) p) files
      else files)"

subsection \<open>Runs\<close>

text \<open>
  Modelled from the spec: what the processes of a run do to the shared files: each of them
  signals its arrival, signals its departure, and cleans up, through its own hook.
\<close>

datatype sync_op = Arrives hook | Departs hook | CleansUp hook

fun apply_sync_op :: "sync_op \<Rightarrow> shared_files \<Rightarrow> shared_files" where
  "apply_sync_op (Arrives h) files = signalArrival h files"
| "apply_sync_op (Departs h) files = signalDeparture h files"
| "apply_sync_op (CleansUp h) files = cleanupSyncDir h files"

text \<open>
  Modelled from the spec: the shared files after the operations \<open>ops\<close> of a run, the first
  operation first.
\<close>

definition after_ops :: "sync_op list \<Rightarrow> shared_files \<Rightarrow> shared_files" where
  "after_ops ops files = fold apply_sync_op ops files"

text \<open>
  The shared files after the sleeps \<open>others\<close> of a wait: what the other processes did
  during each sleep, in turn.
\<close>

definition after_sleeps ::
    "(shared_files \<Rightarrow> shared_files) list \<Rightarrow> shared_files \<Rightarrow> shared_files" where
  "after_sleeps others files = fold (\<lambda>other files'. other files') others files"

text \<open>The other processes only add files: none of them removes one during a sleep.\<close>

definition only_add :: "(shared_files \<Rightarrow> shared_files) list \<Rightarrow> bool" where
  "only_add others \<longleftrightarrow> (\<forall>other \<in> set others. \<forall>files. fmdom files |\<subseteq>| fmdom (other files))"

subsection \<open>What the specification asks of the rendezvous files\<close>

text \<open>The files \<^verbatim>\<open>slurm-procid-*\<close> of a directory.\<close>

definition is_procid_file :: "path \<Rightarrow> bool" where
  "is_procid_file p \<longleftrightarrow>
     components p \<noteq> [] \<and> take 13 (last (components p)) = ''slurm-procid-''"

definition procid_files :: "shared_files \<Rightarrow> path \<Rightarrow> path fset" where
  "procid_files files dir = ffilter is_procid_file (directory_entries files dir)"

text \<open>A directory that holds nothing but files \<^verbatim>\<open>slurm-procid-*\<close>.\<close>

definition only_procid :: "shared_files \<Rightarrow> path \<Rightarrow> bool" where
  "only_procid files dir \<longleftrightarrow>
     (\<forall>p. p |\<in>| directory_entries files dir \<longrightarrow> is_procid_file p)"

subsection \<open>Examples: the job step of the test\<close>

definition test_env :: "string list" where
  "test_env =
     [''SARUS_SLURM_GLOBAL_SYNC_HOOK=1'', ''SLURM_JOB_ID=256'', ''SLURM_STEPID=32'',
      ''SLURM_PROCID=0'', ''SLURM_NTASKS=2'']"

definition test_hook :: hook where
  "test_hook =
     \<lparr>localRepositoryDir = Path True [''home'', ''user'', ''.sarus''],
      userIdentity = (1000, 1000),
      slurmJobID = ''256'', slurmStepID = ''32'', slurmProcID = ''0'', slurmNTasks = 2\<rparr>"

definition test_sync_dir :: path where
  "test_sync_dir =
     Path True [''home'', ''user'', ''.sarus'', ''slurm_global_sync'', ''slurm-jobid-256-stepid-32'']"

text \<open>The hook of rank 1 of the same job step.\<close>

definition test_hook_rank1 :: hook where
  "test_hook_rank1 = test_hook\<lparr>slurmProcID := ''1''\<rparr>"

text \<open>What rank 1 does while rank 0 sleeps: it arrives and departs, as the test simulates.\<close>

definition rank1_acts :: "shared_files \<Rightarrow> shared_files" where
  "rank1_acts files =
     fmupd (path_append test_sync_dir [''departure'', ''slurm-procid-1'']) (1000, 1000)
       (fmupd (path_append test_sync_dir [''arrival'', ''slurm-procid-1'']) (1000, 1000) files)"

section \<open>The SSH hook (src/hooks/ssh)\<close>

text \<open>
  Of this hook the sources hold the test, test/test_SSHHook.cpp; SshHook.cpp is not among
  them. The checks of the test are translated from the source; what the hook writes is
  modelled from the specification.
\<close>

subsection \<open>Files of the container\<close>








subsection \<open>The checks of the test\<close>

text \<open>
  \<^verbatim>\<open>boost::split(tokens, line, boost::is_any_of(sep))\<close> with one separator character: the
  pieces between the separators, empty pieces included.
\<close>

fun split :: "char \<Rightarrow> string \<Rightarrow> string list" where
  "split sep [] = [[]]"
| "split sep (c # cs) =
     (if c = sep then [] # split sep cs
      else (case split sep cs of [] \<Rightarrow> [[c]] | token # tokens \<Rightarrow> (c # token) # tokens))"








subsection \<open>What the hook writes\<close>








section \<open>The glibc hook (src/hooks/glibc)\<close>

text \<open>
  Of this hook the sources hold the declaration of the class, GlibcHook.hpp; GlibcHook.cpp
  is not among them. The hook is modelled from the specification, with the names of the
  member functions the header declares.
\<close>

text \<open>
  Modelled from the spec: what the hook reads of a shared library with \<^verbatim>\<open>ldconfig -p\<close> and
  \<^verbatim>\<open>readelf -d\<close>: its path, its SONAME, whether it is a 64-bit object, its machine, and the
  glibc version parsed from it (major and minor number), if it reports one.
\<close>

record library =
  libraryPath :: path
  soname :: string
  is64bit :: bool
  machine :: string
  glibcVersion :: "(nat \<times> nat) option"

text \<open>
  Modelled from the spec: the root file system of the container, as far as the hook acts
  on it: the libraries in it, the files moved aside (from, to) and the bind mounts (host
  file, container file) laid over it.
\<close>

record rootfs =
  librariesInRootfs :: "library list"
  movedFiles :: "(path \<times> path) list"
  bindMounts :: "(path \<times> path) list"

text \<open>
  Modelled from the spec: "it no-ops unless the container already has a glibc
  installation": a library of the root file system that reports a glibc version.
\<close>

definition containerHasGlibc :: "rootfs \<Rightarrow> bool" where
  "containerHasGlibc r \<longleftrightarrow> list_ex (\<lambda>l. glibcVersion l \<noteq> None) (librariesInRootfs r)"

text \<open>Modelled from the spec: "enumerate 64-bit libraries under the rootfs".\<close>

definition get64bitContainerLibraries :: "rootfs \<Rightarrow> library list" where
  "get64bitContainerLibraries r = filter is64bit (librariesInRootfs r)"

text \<open>Modelled from the spec: "identify the container \<^verbatim>\<open>libc.so.6\<close> (SONAME match)".\<close>

definition findLibc :: "library list \<Rightarrow> library option" where
  "findLibc libs = find (\<lambda>l. soname l = ''libc.so.6'') libs"

text \<open>
  Modelled from the spec: "container-glibc-version \<ge> host-glibc-version", on versions of a
  major and a minor number.
\<close>

definition version_le :: "nat \<times> nat \<Rightarrow> nat \<times> nat \<Rightarrow> bool" where
  "version_le v w \<longleftrightarrow> fst v < fst w \<or> (fst v = fst w \<and> snd v \<le> snd w)"

text \<open>
  Modelled from the spec: the comparison of step 5, on the versions parsed in step 4; a
  library that reports no version is not newer.
\<close>

definition containerGlibcIsNewerOrSame :: "library \<Rightarrow> library \<Rightarrow> bool" where
  "containerGlibcIsNewerOrSame hostLibc containerLibc \<longleftrightarrow>
     (case (glibcVersion hostLibc, glibcVersion containerLibc) of
        (Some hostVersion, Some containerVersion) \<Rightarrow> version_le hostVersion containerVersion
      | _ \<Rightarrow> False)"

text \<open>
  Modelled from the spec: "verify ABI compatibility: both are glibc, both 64-bit, both
  same machine".
\<close>

definition verifyThatHostAndContainerGlibcAreABICompatible ::
    "library \<Rightarrow> library \<Rightarrow> error + unit" where
  "verifyThatHostAndContainerGlibcAreABICompatible hostLibc containerLibc =
     (if glibcVersion hostLibc \<noteq> None \<and> glibcVersion containerLibc \<noteq> None \<and>
         is64bit hostLibc \<and> is64bit containerLibc \<and>
         machine hostLibc = machine containerLibc
      then Inr ()
      else Inl (Thrown NotABICompatible))"

text \<open>
  Modelled from the spec: "replace each matching host library into the container by
  bind-mounting the host file over the container file (after backing up the inode by
  moving the original to \<^verbatim>\<open><rootfs>/.sarus.bak.<name>\<close>)".
\<close>

definition replaceLibrary :: "library list \<Rightarrow> library \<Rightarrow> rootfs \<Rightarrow> rootfs" where
  "replaceLibrary containerLibraries hostLibrary r =
     (case find (\<lambda>l. soname l = soname hostLibrary) containerLibraries of
        None \<Rightarrow> r
      | Some containerLibrary \<Rightarrow>
          r\<lparr>movedFiles := movedFiles r @
               [(libraryPath containerLibrary,
                 Path True [''.sarus.bak.'' @ soname containerLibrary])],
            bindMounts := bindMounts r @
               [(libraryPath hostLibrary, libraryPath containerLibrary)]\<rparr>)"

text \<open>Modelled from the spec: the replacement, for each host library in turn.\<close>

definition replaceGlibcLibrariesInContainer ::
    "library list \<Rightarrow> library list \<Rightarrow> rootfs \<Rightarrow> rootfs" where
  "replaceGlibcLibrariesInContainer hostLibraries containerLibraries r =
     fold (replaceLibrary containerLibraries) hostLibraries r"

text \<open>
  Modelled from the spec: the algorithm of the hook, steps 2 to 6. The host libraries of
  step 1 are the parameter \<open>hostLibraries\<close>. The spec does not say what happens when no
  host library is a \<^verbatim>\<open>libc.so.6\<close>; the model then fails.
\<close>

definition injectGlibcLibrariesIfNecessary :: "library list \<Rightarrow> rootfs \<Rightarrow> error + rootfs" where
  "injectGlibcLibrariesIfNecessary hostLibraries r =
     (if \<not> containerHasGlibc r then Inr r
      else
        (let containerLibraries = get64bitContainerLibraries r in
         case findLibc containerLibraries of
           None \<Rightarrow> Inr r
         | Some containerLibc \<Rightarrow>
            (case findLibc hostLibraries of
               None \<Rightarrow> Inl (Thrown HostLibcNotFound)
             | Some hostLibc \<Rightarrow>
                 if containerGlibcIsNewerOrSame hostLibc containerLibc then Inr r
                 else
                   (case verifyThatHostAndContainerGlibcAreABICompatible hostLibc containerLibc of
                      Inl e \<Rightarrow> Inl e
                    | Inr _ \<Rightarrow>
                        Inr (replaceGlibcLibrariesInContainer hostLibraries
                               containerLibraries r)))))"

subsection \<open>Examples: a host with glibc 2.31\<close>

definition libc_of :: "path \<Rightarrow> nat \<times> nat \<Rightarrow> library" where
  "libc_of p v =
     \<lparr>libraryPath = p, soname = ''libc.so.6'', is64bit = True, machine = ''x86-64'',
      glibcVersion = Some v\<rparr>"

definition host_libraries :: "library list" where
  "host_libraries = [libc_of (Path True [''lib64'', ''libc.so.6'']) (2, 31)]"

definition rootfs_with_glibc :: "nat \<times> nat \<Rightarrow> rootfs" where
  "rootfs_with_glibc v =
     \<lparr>librariesInRootfs = [libc_of (Path True [''usr'', ''lib'', ''libc.so.6'']) v],
      movedFiles = [], bindMounts = []\<rparr>"

definition rootfs_without_glibc :: rootfs where
  "rootfs_without_glibc =
     \<lparr>librariesInRootfs =
        [\<lparr>libraryPath = Path True [''lib'', ''libc.musl-x86_64.so.1''],
          soname = ''libc.musl-x86_64.so.1'', is64bit = True, machine = ''x86-64'',
          glibcVersion = None\<rparr>],
      movedFiles = [], bindMounts = []\<rparr>"

section \<open>Properties of the security checks\<close>

subsection \<open>The primitive checks\<close>

lemma checkThatPathIsRootOwned_iff:
  "checkThatPathIsRootOwned owner_of p = Inr () \<longleftrightarrow> root_owned owner_of p"
  by (auto simp: checkThatPathIsRootOwned_def root_owned_def split: sum.splits)

lemma checkThatPathIsNotGroupWritableOrWorldWritable_iff:
  "checkThatPathIsNotGroupWritableOrWorldWritable fs p = Inr () \<longleftrightarrow>
     not_group_or_world_writable fs p"
  by (simp add: checkThatPathIsNotGroupWritableOrWorldWritable_def
      not_group_or_world_writable_def S_IWGRP_def S_IWOTH_def Let_def)

lemma both_checks_iff:
  "(case checkThatPathIsRootOwned owner_of p of
      Inl e \<Rightarrow> Inl e
    | Inr _ \<Rightarrow> (case checkThatPathIsNotGroupWritableOrWorldWritable fs p of
         Inl e \<Rightarrow> Inl e | Inr _ \<Rightarrow> k)) = Inr ()
   \<longleftrightarrow> entry_ok owner_of fs p \<and> k = Inr ()"
  using checkThatPathIsRootOwned_iff [of owner_of p]
    checkThatPathIsNotGroupWritableOrWorldWritable_iff [of fs p]
  by (auto simp: entry_ok_def split: sum.splits)

text \<open>
  C2. The check of the write bits fails exactly when the mode of the path has the POSIX
  group-write bit \<open>S_IWGRP\<close> (octal 0020) or the world-write bit \<open>S_IWOTH\<close> (octal 0002),
  and succeeds for every other mode: the masks \<open>1 << 4\<close> and \<open>1 << 1\<close> of the code are
  these two constants.
\<close>

theorem C2_write_bit_masks:
  "(checkThatPathIsNotGroupWritableOrWorldWritable fs p = Inl (Thrown (CannotBeGroupOrWorldWritable p))
      \<longleftrightarrow> permissions fs p AND S_IWGRP \<noteq> 0 \<or> permissions fs p AND S_IWOTH \<noteq> 0) \<and>
   (checkThatPathIsNotGroupWritableOrWorldWritable fs p = Inr ()
      \<longleftrightarrow> permissions fs p AND S_IWGRP = 0 \<and> permissions fs p AND S_IWOTH = 0) \<and>
   push_bit 4 1 = S_IWGRP \<and> push_bit 1 1 = S_IWOTH"
  by (simp add: checkThatPathIsNotGroupWritableOrWorldWritable_def S_IWGRP_def S_IWOTH_def Let_def)

theorem C2_write_bit_masks_witness:
  "permissions fs_open_root (Path True []) = 511 \<and>
   checkThatPathIsNotGroupWritableOrWorldWritable fs_open_root (Path True [])
     = Inl (Thrown (CannotBeGroupOrWorldWritable (Path True []))) \<and>
   permissions fs_open_root (Path True [''a'']) = 420 \<and>
   checkThatPathIsNotGroupWritableOrWorldWritable fs_open_root (Path True [''a'']) = Inr ()"
proof -
  have m1: "permissions fs_open_root (Path True []) = 511"
    by code_simp
  have m2: "permissions fs_open_root (Path True [''a'']) = 420"
    by code_simp
  show ?thesis
    using C2_write_bit_masks [of fs_open_root "Path True []"]
      C2_write_bit_masks [of fs_open_root "Path True [''a'']"]
    by (simp add: m1 m2 S_IWGRP_def S_IWOTH_def)
qed

text \<open>
  C10. When the owner of a path cannot be determined, that is when \<^verbatim>\<open>getOwner\<close> throws,
  the root-ownership check fails, and its error is the one \<^verbatim>\<open>getOwner\<close> threw, rethrown
  with a message on top of it. The check of an untamperable path starts with this check on
  the path itself, so it fails in the same way: a path that does not exist never passes.
\<close>

theorem C10_unknown_owner_fails:
  "owner_of p = Inl e \<Longrightarrow>
     checkThatPathIsRootOwned owner_of p = Inl (Rethrown e (FailedToCheckUntamperable p)) \<and>
     checkThatPathIsUntamperable owner_of fs p = Inl (Rethrown e (FailedToCheckUntamperable p))"
  by (simp add: checkThatPathIsUntamperable_def checkParentPaths.simps
      checkThatPathIsRootOwned_def)

theorem C10_unknown_owner_fails_witness:
  "getOwner fs_install (Path True [''tmp'', ''x'']) =
     Inl (Thrown (FailedToRetrieveOwner (Path True [''tmp'', ''x'']))) \<and>
   checkThatPathIsRootOwned (getOwner fs_install) (Path True [''tmp'', ''x'']) =
     Inl (Rethrown (Thrown (FailedToRetrieveOwner (Path True [''tmp'', ''x''])))
            (FailedToCheckUntamperable (Path True [''tmp'', ''x'']))) \<and>
   checkThatPathIsUntamperable (getOwner fs_install) fs_install (Path True [''tmp'', ''x'']) =
     Inl (Rethrown (Thrown (FailedToRetrieveOwner (Path True [''tmp'', ''x''])))
            (FailedToCheckUntamperable (Path True [''tmp'', ''x''])))"
proof -
  have h: "getOwner fs_install (Path True [''tmp'', ''x'']) =
      Inl (Thrown (FailedToRetrieveOwner (Path True [''tmp'', ''x''])))"
    by code_simp
  show ?thesis
    using C10_unknown_owner_fails [of "getOwner fs_install" "Path True [''tmp'', ''x'']" _ fs_install, OF h] h
    by simp
qed

subsection \<open>The loops of the untamperability check\<close>

lemma checkEntries_iff:
  "checkEntries owner_of fs qs = Inr () \<longleftrightarrow> (\<forall>q \<in> set qs. entry_ok owner_of fs q)"
  by (induction qs) (auto simp: both_checks_iff)

lemma entry_ok_exists:
  "entry_ok (getOwner fs) fs p \<Longrightarrow> exists_path fs p \<and> p \<in> set (map fst fs)"
  by (auto simp: entry_ok_def root_owned_def getOwner_def exists_path_def stat_of_def
      split: option.splits if_splits dest!: map_of_SomeD intro: rev_image_eqI)

lemma set_ancestors_below_root:
  "set (ancestors_below_root p) =
     (if components p = [] then {p}
      else {Path (has_root p) (take k (components p)) | k.
              1 \<le> k \<and> k \<le> length (components p)})"
  by (auto simp: ancestors_below_root_def)

lemma ancestors_below_root_parent:
  assumes "components (parent_path p) \<noteq> []"
  shows "set (ancestors_below_root p) = insert p (set (ancestors_below_root (parent_path p)))"
proof -
  from assms have ne: "components p \<noteq> []" and pp: "parent_path p = Path (has_root p) (butlast (components p))"
    and bl: "butlast (components p) \<noteq> []"
    by (auto simp: parent_path_def empty_path_def split: if_splits)
  have tk: "take k (butlast (components p)) = take k (components p)"
    if "k \<le> length (components p) - 1" for k
    using that by (simp add: butlast_conv_take min_def)
  have "{Path (has_root p) (take k (components p)) | k. 1 \<le> k \<and> k \<le> length (components p)}
    = insert p {Path (has_root p) (take k (butlast (components p))) | k. 1 \<le> k \<and> k \<le> length (components p) - 1}"
    (is "?L = insert p ?R")
  proof (intro set_eqI iffI)
    fix x assume "x \<in> ?L"
    then obtain k where k: "1 \<le> k" "k \<le> length (components p)" and x: "x = Path (has_root p) (take k (components p))"
      by blast
    show "x \<in> insert p ?R"
    proof (cases "k = length (components p)")
      case True
      then show ?thesis using x by simp
    next
      case False
      then have k': "k \<le> length (components p) - 1" using k by simp
      then have "x = Path (has_root p) (take k (butlast (components p)))" using x tk by simp
      then have "x \<in> ?R" using k(1) k' by blast
      then show ?thesis by simp
    qed
  next
    fix x assume "x \<in> insert p ?R"
    then consider "x = p" | "x \<in> ?R" by blast
    then show "x \<in> ?L"
    proof cases
      case 1
      have "p = Path (has_root p) (take (length (components p)) (components p))" by simp
      moreover have "1 \<le> length (components p)" using ne by (cases "components p") auto
      ultimately show ?thesis unfolding 1 by blast
    next
      case 2
      then obtain k where k: "1 \<le> k" "k \<le> length (components p) - 1" and x: "x = Path (has_root p) (take k (butlast (components p)))"
        by blast
      then have "x = Path (has_root p) (take k (components p))" using tk by simp
      moreover have "k \<le> length (components p)" using k by simp
      ultimately show ?thesis using k by blast
    qed
  qed
  then show ?thesis
    using ne bl pp by (simp add: set_ancestors_below_root)
qed

lemma ancestors_below_root_single:
  assumes "components (parent_path p) = []"
  shows "set (ancestors_below_root p) = {p}"
proof (cases "components p")
  case Nil
  then show ?thesis by (simp add: set_ancestors_below_root)
next
  case (Cons c cs)
  with assms have "cs = []" by (auto simp: parent_path_def split: if_splits)
  then have "components p = [c]" using Cons by simp
  then have "{Path (has_root p) (take k (components p)) | k. 1 \<le> k \<and> k \<le> length (components p)} = {p}"
    by (cases p) (auto simp: le_Suc_eq intro: exI [of _ 1])
  then show ?thesis using Cons by (simp add: set_ancestors_below_root)
qed


lemma checkParentPaths_iff:
  "parents_exist fs \<Longrightarrow> g = getOwner fs \<Longrightarrow> rootPath = root_path p \<Longrightarrow>
    checkParentPaths g fs rootPath p = Inr () \<longleftrightarrow>
      (\<forall>q \<in> set (ancestors_below_root p). entry_ok g fs q)"
proof (induction g fs rootPath p rule: checkParentPaths.induct)
  case (1 g fs rootPath p)
  let ?pp = "parent_path p"
  note assms = "1.prems"(1)
  note g = "1.prems"(2)
  note rt = "1.prems"(3)
  show ?case
  proof (cases "entry_ok g fs p")
    case False
    have "p \<in> set (ancestors_below_root p)"
      by (cases "components (parent_path p) = []")
         (simp_all add: ancestors_below_root_single ancestors_below_root_parent)
    with False show ?thesis
      by (subst checkParentPaths.simps) (auto simp: both_checks_iff)
  next
    case ok: True
    show ?thesis
    proof (cases "components ?pp = []")
      case True
      then have "\<not> (exists_path fs ?pp \<and> ?pp \<noteq> rootPath)"
        using rt
        by (auto simp: parent_path_def root_path_def exists_path_def stat_of_def empty_path_def
            split: if_splits)
      then show ?thesis using ok True
        by (subst checkParentPaths.simps) (auto simp: both_checks_iff ancestors_below_root_single)
    next
      case False
      from ok have "p \<in> set (map fst fs)" using entry_ok_exists g by blast
      with assms False have ex: "exists_path fs ?pp"
        unfolding parents_exist_def by blast
      from False have neq: "?pp \<noteq> rootPath" using rt by (auto simp: root_path_def)
      have rp: "rootPath = root_path ?pp" using rt False
        by (auto simp: root_path_def parent_path_def empty_path_def split: if_splits)
      have cr: "checkThatPathIsRootOwned g p = Inr ()"
        using ok by (simp add: checkThatPathIsRootOwned_iff entry_ok_def)
      have cw: "checkThatPathIsNotGroupWritableOrWorldWritable fs p = Inr ()"
        using ok by (simp add: checkThatPathIsNotGroupWritableOrWorldWritable_iff entry_ok_def)
      have IH: "checkParentPaths g fs rootPath ?pp = Inr () \<longleftrightarrow>
         (\<forall>q \<in> set (ancestors_below_root ?pp). entry_ok g fs q)"
        using "1.IH" [OF cr cw _ assms g rp] ex neq by simp
      show ?thesis
        using ok ex neq IH False
        by (subst checkParentPaths.simps) (simp add: cr cw ancestors_below_root_parent)
    qed
  qed
qed

text \<open>
  C1, as the claim states it, asks the call to fail when any ancestor up to the root of
  the file system has a foreign owner or a group or world write bit. The loop stops before
  the root directory: with a root directory that everybody may write to, the check of
  \<^verbatim>\<open>/a\<close> succeeds.
\<close>

theorem C1_root_directory_is_not_checked:
  "Path True [] \<in> set (ancestors_up_to_root (Path True [''a''])) \<and>
   permissions fs_open_root (Path True []) AND S_IWOTH \<noteq> 0 \<and>
   \<not> entry_ok (getOwner fs_open_root) fs_open_root (Path True []) \<and>
   checkThatPathIsUntamperable (getOwner fs_open_root) fs_open_root (Path True [''a''])
     = Inr ()"
  by code_simp

text \<open>
  C1, amended. In a file system where the parent of every entry exists, the check of a
  path succeeds exactly when the path and each of its ancestors below the root directory
  (for a relative path: each leading part of it) has an owner that is found and is uid 0
  and a mode without the group-write and world-write bits, and, when the path is a
  directory, every entry below it at any depth has the same; otherwise it fails. The root
  directory itself is looked at only when it is the path passed.
\<close>

theorem C1_untamperable_iff:
  assumes "parents_exist fs"
  shows "checkThatPathIsUntamperable (getOwner fs) fs p = Inr () \<longleftrightarrow>
     (\<forall>q \<in> set (ancestors_below_root p). entry_ok (getOwner fs) fs q) \<and>
     (is_directory fs p \<longrightarrow>
        (\<forall>d \<in> set (recursive_directory_iterator fs p). entry_ok (getOwner fs) fs d))"
  using checkParentPaths_iff [OF assms refl refl, of p]
  by (auto simp: checkThatPathIsUntamperable_def checkEntries_iff split: sum.splits)

theorem C1_untamperable_iff_witness:
  "parents_exist fs_install \<and>
   checkThatPathIsUntamperable (getOwner fs_install) fs_install
     (Path True [''opt'', ''sarus'', ''openssh'']) = Inr () \<and>
   list_all (entry_ok (getOwner fs_install) fs_install)
     (ancestors_below_root (Path True [''opt'', ''sarus'', ''openssh''])) \<and>
   is_directory fs_install (Path True [''opt'', ''sarus'', ''openssh'']) \<and>
   list_all (entry_ok (getOwner fs_install) fs_install)
     (recursive_directory_iterator fs_install (Path True [''opt'', ''sarus'', ''openssh'']))"
proof -
  have pe: "parents_exist fs_install"
    by code_simp
  have ok: "checkThatPathIsUntamperable (getOwner fs_install) fs_install
      (Path True [''opt'', ''sarus'', ''openssh'']) = Inr ()"
    by code_simp
  have dir: "is_directory fs_install (Path True [''opt'', ''sarus'', ''openssh''])"
    by code_simp
  show ?thesis
    using C1_untamperable_iff [OF pe, of "Path True [''opt'', ''sarus'', ''openssh'']"]
      pe ok dir
    by (simp add: list_all_iff)
qed

subsection \<open>The run of the security checks\<close>

lemma andThen_iff: "andThen r k = Inr () \<longleftrightarrow> r = Inr () \<and> k = Inr ()"
  by (auto simp: andThen_def split: sum.splits)

lemma checkHooks_iff:
  "checkHooks owner_of fs hooks = Inr () \<longleftrightarrow>
     (\<forall>h \<in> set hooks. checkThatPathIsUntamperable owner_of fs (hook_path h) = Inr ())"
  by (induction hooks) (auto split: sum.splits)

lemma checkThatOCIHooksAreUntamperableByType_iff:
  "checkThatOCIHooksAreUntamperableByType owner_of fs obj t = Inr () \<longleftrightarrow>
     (\<forall>p \<in> set (case map_of obj t of None \<Rightarrow> [] | Some hooks \<Rightarrow> map hook_path hooks).
         checkThatPathIsUntamperable owner_of fs p = Inr ())"
  by (auto simp: checkThatOCIHooksAreUntamperableByType_def checkHooks_iff split: option.splits)

lemma checkThatOCIHooksAreUntamperable_iff:
  "checkThatOCIHooksAreUntamperable owner_of fs cfg = Inr () \<longleftrightarrow>
     (\<forall>p \<in> set (configured_hook_paths cfg). checkThatPathIsUntamperable owner_of fs p = Inr ())"
  by (cases "OCIHooks cfg")
     (simp_all add: checkThatOCIHooksAreUntamperable_def configured_hook_paths_def andThen_iff
        checkThatOCIHooksAreUntamperableByType_iff ball_Un)

lemma checkThatBinariesInSarusJsonAreUntamperable_iff:
  "checkThatBinariesInSarusJsonAreUntamperable owner_of fs cfg = Inr () \<longleftrightarrow>
     (\<forall>p \<in> set [mksquashfsPath cfg, initPath cfg, runcPath cfg].
         checkThatPathIsUntamperable owner_of fs p = Inr ())"
  by (simp add: checkThatBinariesInSarusJsonAreUntamperable_def andThen_iff)

text \<open>
  C3. For every configuration, a run of the security checks passes only if
  \<^verbatim>\<open>etc/sarus.json\<close> and \<^verbatim>\<open>etc/sarus.schema.json\<close> under the installation prefix are owned
  by root and not writable by group or world: the two files themselves, whatever their
  ancestors are. With the \<^verbatim>\<open>securityChecks\<close> flag it passes only if, in addition, every
  path of the sweeps is untamperable (the three binaries, the configured hooks, and
  \<^verbatim>\<open>openssh\<close> and \<^verbatim>\<open>bin/ssh_hook\<close> under the configured prefix directory); without the flag
  the two weak checks alone decide.
\<close>

theorem C3_runSecurityChecks_iff:
  "runSecurityChecks owner_of fs cfg prefix = Inr () \<longleftrightarrow>
     entry_ok owner_of fs (path_append prefix [''etc'', ''sarus.json'']) \<and>
     entry_ok owner_of fs (path_append prefix [''etc'', ''sarus.schema.json'']) \<and>
     (securityChecks cfg \<longrightarrow>
        (\<forall>p \<in> set (sweep_paths cfg). checkThatPathIsUntamperable owner_of fs p = Inr ()))"
proof -
  have sweeps:
    "(\<forall>p \<in> set (sweep_paths cfg). checkThatPathIsUntamperable owner_of fs p = Inr ()) \<longleftrightarrow>
       checkThatBinariesInSarusJsonAreUntamperable owner_of fs cfg = Inr () \<and>
       checkThatOCIHooksAreUntamperable owner_of fs cfg = Inr () \<and>
       checkThatPathIsUntamperable owner_of fs (path_append (prefixDir cfg) [''openssh''])
         = Inr () \<and>
       checkThatPathIsUntamperable owner_of fs (path_append (prefixDir cfg) [''bin'', ''ssh_hook''])
         = Inr ()"
    unfolding checkThatBinariesInSarusJsonAreUntamperable_iff
      checkThatOCIHooksAreUntamperable_iff sweep_paths_def
    by auto
  show ?thesis
    by (auto simp: sweeps runSecurityChecks_def Let_def andThen_iff entry_ok_def
        checkThatPathIsRootOwned_iff checkThatPathIsNotGroupWritableOrWorldWritable_iff)
qed

theorem C3_runSecurityChecks_iff_witness:
  "securityChecks cfg_install \<and>
   runSecurityChecks (getOwner fs_install) fs_install cfg_install (Path True [''opt'', ''sarus''])
     = Inr () \<and>
   list_all (\<lambda>p. checkThatPathIsUntamperable (getOwner fs_install) fs_install p = Inr ())
     (sweep_paths cfg_install) \<and>
   \<not> securityChecks (cfg_install\<lparr>securityChecks := False, runcPath := Path True [''tmp'', ''runc'']\<rparr>) \<and>
   runSecurityChecks (getOwner fs_install) fs_install
     (cfg_install\<lparr>securityChecks := False, runcPath := Path True [''tmp'', ''runc'']\<rparr>)
     (Path True [''opt'', ''sarus'']) = Inr () \<and>
   checkThatPathIsUntamperable (getOwner fs_install) fs_install (Path True [''tmp'', ''runc''])
     \<noteq> Inr ()"
proof -
  have on: "securityChecks cfg_install"
    by code_simp
  have run: "runSecurityChecks (getOwner fs_install) fs_install cfg_install
      (Path True [''opt'', ''sarus'']) = Inr ()"
    by code_simp
  have off: "\<not> securityChecks
      (cfg_install\<lparr>securityChecks := False, runcPath := Path True [''tmp'', ''runc'']\<rparr>)"
    by simp
  have weak1: "entry_ok (getOwner fs_install) fs_install
      (path_append (Path True [''opt'', ''sarus'']) [''etc'', ''sarus.json''])"
    by code_simp
  have weak2: "entry_ok (getOwner fs_install) fs_install
      (path_append (Path True [''opt'', ''sarus'']) [''etc'', ''sarus.schema.json''])"
    by code_simp
  have bad: "checkThatPathIsUntamperable (getOwner fs_install) fs_install
      (Path True [''tmp'', ''runc'']) \<noteq> Inr ()"
    by code_simp
  show ?thesis
    using C3_runSecurityChecks_iff [of "getOwner fs_install" fs_install cfg_install
        "Path True [''opt'', ''sarus'']"]
      C3_runSecurityChecks_iff [of "getOwner fs_install" fs_install
        "cfg_install\<lparr>securityChecks := False, runcPath := Path True [''tmp'', ''runc'']\<rparr>"
        "Path True [''opt'', ''sarus'']"]
      on run off weak1 weak2 bad
    by (simp add: list_all_iff)
qed

section \<open>Properties of the factory of command objects\<close>

lemma addCommand_keys:
  "map fst (map_plain f) = map fst (mapWithArguments f) \<Longrightarrow>
   map fst (map_plain (addCommand c n f)) = map fst (mapWithArguments (addCommand c n f))"
  by (simp add: addCommand_def update_keys)

lemma addCommand_distinct:
  "distinct (map fst (map_plain f)) \<Longrightarrow> distinct (map fst (map_plain (addCommand c n f)))"
  by (simp add: addCommand_def distinct_update)

lemma addCommands_keys:
  "map fst (map_plain f) = map fst (mapWithArguments f) \<Longrightarrow>
   map fst (map_plain (addCommands calls f)) = map fst (mapWithArguments (addCommands calls f))"
  by (induction calls f rule: addCommands.induct) (simp_all add: addCommand_keys)

lemma addCommands_distinct:
  "distinct (map fst (map_plain f)) \<Longrightarrow> distinct (map fst (map_plain (addCommands calls f)))"
  by (induction calls f rule: addCommands.induct) (simp_all add: addCommand_distinct)

lemma same_keys_lookup:
  assumes "map fst xs = map fst ys"
  shows "map_of xs k = None \<longleftrightarrow> map_of ys k = None"
proof -
  have "k \<notin> fst ` set xs \<longleftrightarrow> k \<notin> fst ` set ys"
    using assms by (metis set_map)
  then show ?thesis by (simp add: map_of_eq_None_iff)
qed

lemma CommandObjectsFactory_calls:
  "(CommandObjectsFactory :: ('a, 'g) factory) =
     addCommands [(CommandHelp, ''help''), (CommandImages, ''images''), (CommandLoad, ''load''),
       (CommandPull, ''pull''), (CommandRmi, ''rmi''), (CommandRun, ''run''),
       (CommandSshKeygen, ''ssh-keygen''), (CommandVersion, ''version'')] empty_factory"
  by (simp add: CommandObjectsFactory_def)

text \<open>
  C9. For a factory built by calls of \<^verbatim>\<open>addCommand\<close>, as the constructor builds it, and for
  every string: each of the two overloads of \<^verbatim>\<open>makeCommandObject\<close> fails exactly when
  \<^verbatim>\<open>isValidCommandName\<close> is false, and the failure is the error thrown for an invalid
  command name; \<^verbatim>\<open>getCommandNames\<close> returns exactly the valid names, each once, in some
  order. The two maps
  have the same keys, so the lookup in \<^verbatim>\<open>mapWithArguments\<close> after the validation against
  \<^verbatim>\<open>map\<close> always finds its key.
\<close>

theorem C9_factory_valid_names:
  fixes calls :: "(command_class \<times> string) list" and args :: 'a and cfg :: 'g
  defines "f \<equiv> (addCommands calls empty_factory :: ('a, 'g) factory)"
  shows "((\<exists>e. makeCommandObject f s = Inl e) \<longleftrightarrow> \<not> isValidCommandName f s) \<and>
     (makeCommandObject f s = Inl (Throws (Thrown (InvalidCommandName s)))
        \<longleftrightarrow> \<not> isValidCommandName f s) \<and>
     ((\<exists>e. makeCommandObjectWithArguments f s args cfg = Inl e)
        \<longleftrightarrow> \<not> isValidCommandName f s) \<and>
     (makeCommandObjectWithArguments f s args cfg = Inl (Throws (Thrown (InvalidCommandName s)))
        \<longleftrightarrow> \<not> isValidCommandName f s) \<and>
     set (getCommandNames f) = {n. isValidCommandName f n} \<and>
     distinct (getCommandNames f) \<and>
     map fst (map_plain f) = map fst (mapWithArguments f)"
proof -
  have keys: "map fst (map_plain f) = map fst (mapWithArguments f)"
    unfolding f_def by (rule addCommands_keys) (simp add: empty_factory_def)
  have dist: "distinct (getCommandNames f)"
    unfolding f_def getCommandNames_def
    by (rule addCommands_distinct) (simp add: empty_factory_def)
  have names: "set (getCommandNames f) = {n. isValidCommandName f n}"
    by (auto simp: getCommandNames_def isValidCommandName_def map_of_eq_None_iff)
  have m1: "(\<exists>e. makeCommandObject f s = Inl e) \<longleftrightarrow> \<not> isValidCommandName f s"
    by (auto simp: makeCommandObject_def isValidCommandName_def)
  have m2: "makeCommandObject f s = Inl (Throws (Thrown (InvalidCommandName s)))
        \<longleftrightarrow> \<not> isValidCommandName f s"
    by (auto simp: makeCommandObject_def isValidCommandName_def)
  have found: "isValidCommandName f s \<Longrightarrow> map_of (mapWithArguments f) s \<noteq> None"
    using same_keys_lookup [OF keys, of s] by (simp add: isValidCommandName_def)
  have m3: "(\<exists>e. makeCommandObjectWithArguments f s args cfg = Inl e)
        \<longleftrightarrow> \<not> isValidCommandName f s"
    using found by (auto simp: makeCommandObjectWithArguments_def)
  have m4: "makeCommandObjectWithArguments f s args cfg
        = Inl (Throws (Thrown (InvalidCommandName s))) \<longleftrightarrow> \<not> isValidCommandName f s"
    using found by (auto simp: makeCommandObjectWithArguments_def)
  show ?thesis using keys dist names m1 m2 m3 m4 by blast
qed

theorem C9_factory_valid_names_witness:
  "(CommandObjectsFactory :: (unit, unit) factory) =
     addCommands [(CommandHelp, ''help''), (CommandImages, ''images''), (CommandLoad, ''load''),
       (CommandPull, ''pull''), (CommandRmi, ''rmi''), (CommandRun, ''run''),
       (CommandSshKeygen, ''ssh-keygen''), (CommandVersion, ''version'')] empty_factory \<and>
   set (getCommandNames (CommandObjectsFactory :: (unit, unit) factory)) =
     {''help'', ''images'', ''load'', ''pull'', ''rmi'', ''run'', ''ssh-keygen'', ''version''} \<and>
   length (getCommandNames (CommandObjectsFactory :: (unit, unit) factory)) = 8 \<and>
   \<not> isValidCommandName (CommandObjectsFactory :: (unit, unit) factory) ''fly'' \<and>
   makeCommandObject (CommandObjectsFactory :: (unit, unit) factory) ''fly''
     = Inl (Throws (Thrown (InvalidCommandName ''fly''))) \<and>
   makeCommandObjectWithArguments (CommandObjectsFactory :: (unit, unit) factory) ''fly'' () ()
     = Inl (Throws (Thrown (InvalidCommandName ''fly''))) \<and>
   isValidCommandName (CommandObjectsFactory :: (unit, unit) factory) ''run'' \<and>
   makeCommandObject (CommandObjectsFactory :: (unit, unit) factory) ''run''
     = Inr (New CommandRun) \<and>
   makeCommandObjectWithArguments (CommandObjectsFactory :: (unit, unit) factory) ''run'' () ()
     = Inr (NewWithArguments CommandRun () ())"
proof -
  let ?calls = "[(CommandHelp, ''help''), (CommandImages, ''images''), (CommandLoad, ''load''),
       (CommandPull, ''pull''), (CommandRmi, ''rmi''), (CommandRun, ''run''),
       (CommandSshKeygen, ''ssh-keygen''), (CommandVersion, ''version'')]"
  have built: "(CommandObjectsFactory :: (unit, unit) factory) = addCommands ?calls empty_factory"
    by (rule CommandObjectsFactory_calls)
  have names: "set (getCommandNames (CommandObjectsFactory :: (unit, unit) factory)) =
      {''help'', ''images'', ''load'', ''pull'', ''rmi'', ''run'', ''ssh-keygen'', ''version''}
      \<and> length (getCommandNames (CommandObjectsFactory :: (unit, unit) factory)) = 8"
    by (simp add: CommandObjectsFactory_def addCommand_def empty_factory_def getCommandNames_def)
  have fly: "\<not> isValidCommandName (CommandObjectsFactory :: (unit, unit) factory) ''fly''"
    by (simp add: CommandObjectsFactory_def addCommand_def empty_factory_def
        isValidCommandName_def)
  have run: "isValidCommandName (CommandObjectsFactory :: (unit, unit) factory) ''run''"
    by (simp add: CommandObjectsFactory_def addCommand_def empty_factory_def
        isValidCommandName_def)
  have run1: "makeCommandObject (CommandObjectsFactory :: (unit, unit) factory) ''run''
      = Inr (New CommandRun)"
    by (simp add: CommandObjectsFactory_def addCommand_def empty_factory_def
        makeCommandObject_def isValidCommandName_def)
  have run2: "makeCommandObjectWithArguments (CommandObjectsFactory :: (unit, unit) factory)
      ''run'' () () = Inr (NewWithArguments CommandRun () ())"
    by (simp add: CommandObjectsFactory_def addCommand_def empty_factory_def
        makeCommandObjectWithArguments_def isValidCommandName_def)
  show ?thesis
    using C9_factory_valid_names [of ?calls "''fly''" "()" "()", folded built]
      built names fly run run1 run2
    by simp
qed

section \<open>Properties of the Slurm global synchronisation hook\<close>

lemma ffilter_finsert:
  "ffilter P (finsert x A) = (if P x then finsert x (ffilter P A) else ffilter P A)"
  by auto

lemma ffilter_fempty: "ffilter P {||} = {||}"
  by auto

lemma syncFileArrival_in_arrival:
  "components (syncFileArrival h) \<noteq> [] \<and>
   parent_path (syncFileArrival h) = syncDirArrival h \<and>
   is_procid_file (syncFileArrival h)"
  by (cases "syncDirArrival h")
     (simp add: syncFileArrival_def path_append_def parent_path_def is_procid_file_def)

lemma syncFileDeparture_in_departure:
  "components (syncFileDeparture h) \<noteq> [] \<and>
   parent_path (syncFileDeparture h) = syncDirDeparture h \<and>
   is_procid_file (syncFileDeparture h)"
  by (cases "syncDirDeparture h")
     (simp add: syncFileDeparture_def path_append_def parent_path_def is_procid_file_def)

lemma signalArrival_creates: "syncFileArrival h |\<in>| fmdom (signalArrival h files)"
  by (simp add: signalArrival_def createFileIfNecessary_def)

lemma signalDeparture_creates: "syncFileDeparture h |\<in>| fmdom (signalDeparture h files)"
  by (simp add: signalDeparture_def createFileIfNecessary_def)

lemma signalDeparture_keeps: "fmdom files |\<subseteq>| fmdom (signalDeparture h files)"
  by (auto simp: signalDeparture_def createFileIfNecessary_def)

lemma signalArrival_idem: "signalArrival h (signalArrival h files) = signalArrival h files"
  by (simp add: signalArrival_def createFileIfNecessary_def)

lemma signalArrival_first_entry:
  assumes e: "directory_entries files (syncDirArrival h) = {||}"
  shows "directory_entries (signalArrival h files) (syncDirArrival h) = {|syncFileArrival h|}"
proof -
  have "syncFileArrival h |\<notin>| fmdom files"
  proof
    assume "syncFileArrival h |\<in>| fmdom files"
    then have "syncFileArrival h |\<in>| directory_entries files (syncDirArrival h)"
      using syncFileArrival_in_arrival [of h] by (simp add: directory_entries_def)
    with e show False by simp
  qed
  then have "fmdom (signalArrival h files) = finsert (syncFileArrival h) (fmdom files)"
    by (simp add: signalArrival_def createFileIfNecessary_def)
  then show ?thesis
    using e syncFileArrival_in_arrival [of h] unfolding directory_entries_def by auto
qed

lemmas sync_example_defs =
  test_hook_def test_hook_rank1_def test_sync_dir_def syncDir_def syncDirArrival_def
  syncDirDeparture_def syncFileArrival_def syncFileDeparture_def path_append_def
  parent_path_def directory_entries_def countFilesInDirectory_def procid_files_def
  is_procid_file_def allInstancesArrived_def allInstancesDeparted_def signalArrival_def
  signalDeparture_def createFileIfNecessary_def after_ops_def ffilter_finsert ffilter_fempty
  fcard_finsert_if fcard_fempty

subsection \<open>The files of a run\<close>

text \<open>
  Every operation of a run leaves a directory that holds nothing but files
  \<^verbatim>\<open>slurm-procid-*\<close> in that state: arrivals and departures create such files, and the
  cleanup only removes files.
\<close>

lemma only_procid_op:
  "only_procid files dir \<Longrightarrow> only_procid (apply_sync_op op files) dir"
proof (cases op)
  case (Arrives h)
  then show "only_procid files dir \<Longrightarrow> only_procid (apply_sync_op op files) dir"
    using syncFileArrival_in_arrival [of h]
    by (auto simp: only_procid_def directory_entries_def signalArrival_def
        createFileIfNecessary_def split: if_splits)
next
  case (Departs h)
  then show "only_procid files dir \<Longrightarrow> only_procid (apply_sync_op op files) dir"
    using syncFileDeparture_in_departure [of h]
    by (auto simp: only_procid_def directory_entries_def signalDeparture_def
        createFileIfNecessary_def split: if_splits)
next
  case (CleansUp h)
  then show "only_procid files dir \<Longrightarrow> only_procid (apply_sync_op op files) dir"
    by (auto simp: only_procid_def directory_entries_def cleanupSyncDir_def split: if_splits)
qed

lemma only_procid_after_ops:
  "only_procid files dir \<Longrightarrow> only_procid (after_ops ops files) dir"
  unfolding after_ops_def
  by (induction ops arbitrary: files) (simp_all add: only_procid_op)

lemma procid_files_all:
  "only_procid files dir \<Longrightarrow> procid_files files dir = directory_entries files dir"
  by (auto simp: procid_files_def only_procid_def)

text \<open>
  C4. In a run with \<^verbatim>\<open>SLURM_NTASKS = N\<close>, that is after any operations of the hooks on
  shared files in which the directories \<^verbatim>\<open>arrival/\<close> and \<^verbatim>\<open>departure/\<close> of the sync directory
  had no entry at the start, \<^verbatim>\<open>allInstancesArrived()\<close> returns true if and only if exactly
  \<^verbatim>\<open>N\<close> distinct files \<^verbatim>\<open>arrival/slurm-procid-*\<close> exist, and \<^verbatim>\<open>allInstancesDeparted()\<close> returns
  true if and only if exactly \<^verbatim>\<open>N\<close> distinct files \<^verbatim>\<open>departure/slurm-procid-*\<close> exist.
\<close>

theorem C4_all_instances_iff:
  assumes "directory_entries files (syncDirArrival h) = {||}"
    and "directory_entries files (syncDirDeparture h) = {||}"
  shows "(allInstancesArrived h (after_ops ops files) \<longleftrightarrow>
            fcard (procid_files (after_ops ops files) (syncDirArrival h)) = slurmNTasks h) \<and>
         (allInstancesDeparted h (after_ops ops files) \<longleftrightarrow>
            fcard (procid_files (after_ops ops files) (syncDirDeparture h)) = slurmNTasks h)"
proof -
  have "only_procid files (syncDirArrival h)" "only_procid files (syncDirDeparture h)"
    using assms by (simp_all add: only_procid_def)
  then have "only_procid (after_ops ops files) (syncDirArrival h)"
    "only_procid (after_ops ops files) (syncDirDeparture h)"
    by (simp_all add: only_procid_after_ops)
  then show ?thesis
    by (simp add: procid_files_all allInstancesArrived_def allInstancesDeparted_def
        countFilesInDirectory_def)
qed

theorem C4_all_instances_iff_witness:
  "directory_entries (fmempty :: shared_files) (syncDirArrival test_hook) = {||} \<and>
   directory_entries (fmempty :: shared_files) (syncDirDeparture test_hook) = {||} \<and>
   slurmNTasks test_hook = 2 \<and>
   fcard (procid_files (after_ops [Arrives test_hook] fmempty) (syncDirArrival test_hook)) = 1 \<and>
   \<not> allInstancesArrived test_hook (after_ops [Arrives test_hook] fmempty) \<and>
   fcard (procid_files (after_ops [Arrives test_hook, Arrives test_hook_rank1] fmempty)
            (syncDirArrival test_hook)) = 2 \<and>
   allInstancesArrived test_hook (after_ops [Arrives test_hook, Arrives test_hook_rank1] fmempty)"
proof -
  have e1: "directory_entries (fmempty :: shared_files) (syncDirArrival test_hook) = {||}"
    by (simp add: directory_entries_def ffilter_fempty)
  have e2: "directory_entries (fmempty :: shared_files) (syncDirDeparture test_hook) = {||}"
    by (simp add: directory_entries_def ffilter_fempty)
  have n: "slurmNTasks test_hook = 2"
    by (simp add: test_hook_def)
  have count1: "fcard (procid_files (after_ops [Arrives test_hook] fmempty)
      (syncDirArrival test_hook)) = 1"
    by (simp add: sync_example_defs)
  have count2: "fcard (procid_files (after_ops [Arrives test_hook, Arrives test_hook_rank1] fmempty)
      (syncDirArrival test_hook)) = 2"
    by (simp add: sync_example_defs)
  have one: "allInstancesArrived test_hook (after_ops [Arrives test_hook] fmempty) \<longleftrightarrow>
      fcard (procid_files (after_ops [Arrives test_hook] fmempty) (syncDirArrival test_hook))
        = slurmNTasks test_hook"
    using C4_all_instances_iff [OF e1 e2, of "[Arrives test_hook]"] by blast
  have two: "allInstancesArrived test_hook
        (after_ops [Arrives test_hook, Arrives test_hook_rank1] fmempty) \<longleftrightarrow>
      fcard (procid_files (after_ops [Arrives test_hook, Arrives test_hook_rank1] fmempty)
        (syncDirArrival test_hook)) = slurmNTasks test_hook"
    using C4_all_instances_iff [OF e1 e2, of "[Arrives test_hook, Arrives test_hook_rank1]"]
    by blast
  show ?thesis
    using e1 e2 n count1 count2 one two by simp
qed

subsection \<open>Arrival\<close>

text \<open>
  C5. \<^verbatim>\<open>signalArrival()\<close> leaves the file \<^verbatim>\<open><sync>/arrival/slurm-procid-<P>\<close> in place; when
  the call creates it, the file belongs to the uid and gid of the invoking user. A second
  call changes nothing: there is one file of that name, and in a directory \<^verbatim>\<open>arrival/\<close>
  that was empty it is the only entry.
\<close>

theorem C5_signalArrival_idempotent:
  "syncFileArrival h =
     path_append (localRepositoryDir h)
       [''slurm_global_sync'', ''slurm-jobid-'' @ slurmJobID h @ ''-stepid-'' @ slurmStepID h,
        ''arrival'', ''slurm-procid-'' @ slurmProcID h] \<and>
   syncFileArrival h |\<in>| fmdom (signalArrival h files) \<and>
   (syncFileArrival h |\<notin>| fmdom files \<longrightarrow>
      fmlookup (signalArrival h files) (syncFileArrival h) = Some (userIdentity h)) \<and>
   signalArrival h (signalArrival h files) = signalArrival h files \<and>
   fcard (ffilter (\<lambda>p. p = syncFileArrival h) (fmdom (signalArrival h (signalArrival h files))))
     = 1 \<and>
   (directory_entries files (syncDirArrival h) = {||} \<longrightarrow>
      countFilesInDirectory (signalArrival h (signalArrival h files)) (syncDirArrival h) = 1)"
proof -
  have name: "syncFileArrival h =
     path_append (localRepositoryDir h)
       [''slurm_global_sync'', ''slurm-jobid-'' @ slurmJobID h @ ''-stepid-'' @ slurmStepID h,
        ''arrival'', ''slurm-procid-'' @ slurmProcID h]"
    by (simp add: syncFileArrival_def syncDirArrival_def syncDir_def path_append_def)
  have owner: "syncFileArrival h |\<notin>| fmdom files \<longrightarrow>
      fmlookup (signalArrival h files) (syncFileArrival h) = Some (userIdentity h)"
    by (simp add: signalArrival_def createFileIfNecessary_def)
  have "ffilter (\<lambda>p. p = syncFileArrival h) (fmdom (signalArrival h files))
      = {|syncFileArrival h|}"
    using signalArrival_creates [of h files] by auto
  then have one: "fcard (ffilter (\<lambda>p. p = syncFileArrival h)
      (fmdom (signalArrival h (signalArrival h files)))) = 1"
    by (simp add: signalArrival_idem fcard_finsert_if)
  have only: "directory_entries files (syncDirArrival h) = {||} \<longrightarrow>
      countFilesInDirectory (signalArrival h (signalArrival h files)) (syncDirArrival h) = 1"
    by (simp add: signalArrival_idem countFilesInDirectory_def signalArrival_first_entry
        fcard_finsert_if)
  show ?thesis
    using name signalArrival_creates [of h files] owner signalArrival_idem [of h files] one only
    by blast
qed

theorem C5_signalArrival_idempotent_witness:
  "syncFileArrival test_hook = path_append test_sync_dir [''arrival'', ''slurm-procid-0''] \<and>
   syncFileArrival test_hook |\<notin>| fmdom (fmempty :: shared_files) \<and>
   fmlookup (signalArrival test_hook fmempty) (syncFileArrival test_hook) = Some (1000, 1000) \<and>
   directory_entries (fmempty :: shared_files) (syncDirArrival test_hook) = {||} \<and>
   countFilesInDirectory (signalArrival test_hook (signalArrival test_hook fmempty))
     (syncDirArrival test_hook) = 1"
proof -
  have name: "syncFileArrival test_hook
      = path_append test_sync_dir [''arrival'', ''slurm-procid-0'']"
    by (simp add: sync_example_defs)
  have new: "syncFileArrival test_hook |\<notin>| fmdom (fmempty :: shared_files)"
    by simp
  have empty: "directory_entries (fmempty :: shared_files) (syncDirArrival test_hook) = {||}"
    by (simp add: directory_entries_def ffilter_fempty)
  have user: "userIdentity test_hook = (1000, 1000)"
    by (simp add: test_hook_def)
  have own: "fmlookup (signalArrival test_hook fmempty) (syncFileArrival test_hook)
      = Some (userIdentity test_hook)"
    using C5_signalArrival_idempotent [of test_hook fmempty] new by blast
  have cnt: "countFilesInDirectory (signalArrival test_hook (signalArrival test_hook fmempty))
      (syncDirArrival test_hook) = 1"
    using C5_signalArrival_idempotent [of test_hook fmempty] empty by blast
  show ?thesis
    using name new own cnt empty by (simp only: user simp_thms)
qed

subsection \<open>The barrier\<close>

lemma waitUntil_holds:
  "waitUntil allThere others files = Inr (files', others') \<Longrightarrow> allThere files'"
  by (induction allThere others files rule: waitUntil.induct) (auto split: if_splits)

lemma waitUntil_now:
  "allThere files \<Longrightarrow> waitUntil allThere others files = Inr (files, others)"
  by (cases others) simp_all

text \<open>The wait runs into the deadline exactly when no poll finds all instances there.\<close>

lemma waitUntil_timeout_iff:
  "waitUntil allThere others files = Inl (Thrown SynchronizationTimeout) \<longleftrightarrow>
     (\<forall>k \<le> length others. \<not> allThere (after_sleeps (take k others) files))"
proof (induction others arbitrary: files)
  case Nil
  then show ?case by (simp add: after_sleeps_def)
next
  case (Cons other others)
  have split:
    "(\<forall>k \<le> length (other # others).
        \<not> allThere (after_sleeps (take k (other # others)) files))
      \<longleftrightarrow> \<not> allThere files \<and>
          (\<forall>k \<le> length others. \<not> allThere (after_sleeps (take k others) (other files)))"
    (is "?L \<longleftrightarrow> ?R")
  proof
    assume l: ?L
    have "\<not> allThere files"
      using l [rule_format, of 0] by (simp add: after_sleeps_def)
    moreover have "\<not> allThere (after_sleeps (take k others) (other files))"
      if "k \<le> length others" for k
      using l [rule_format, of "Suc k"] that by (simp add: after_sleeps_def)
    ultimately show ?R by blast
  next
    assume r: ?R
    show ?L
    proof (intro allI impI)
      fix k assume "k \<le> length (other # others)"
      then show "\<not> allThere (after_sleeps (take k (other # others)) files)"
        using r by (cases k) (simp_all add: after_sleeps_def)
    qed
  qed
  show ?case
    unfolding split using Cons.IH [of "other files"] by simp
qed

lemma only_add_tl: "only_add (other # others) \<Longrightarrow> only_add others"
  by (simp add: only_add_def)

lemma waitUntil_only_add:
  "only_add others \<Longrightarrow> waitUntil allThere others files = Inr (files', others') \<Longrightarrow>
     fmdom files |\<subseteq>| fmdom files' \<and> only_add others'"
proof (induction allThere others files rule: waitUntil.induct)
  case (1 allThere files)
  then show ?case by (auto split: if_splits)
next
  case (2 allThere other others files)
  show ?case
  proof (cases "allThere files")
    case True
    with 2 show ?thesis by auto
  next
    case False
    have step: "fmdom files |\<subseteq>| fmdom (other files)"
      using "2.prems"(1) by (simp add: only_add_def)
    have "fmdom (other files) |\<subseteq>| fmdom files' \<and> only_add others'"
      using "2.IH" [OF False only_add_tl [OF "2.prems"(1)]] "2.prems"(2) False by simp
    with step show ?thesis by blast
  qed
qed

lemma performSynchronization_enabled:
  assumes "isHookEnabled env" and "loadConfigs localRepo user env = Some h"
  shows "performSynchronization localRepo user env others files =
     (case waitUntil (allInstancesArrived h) others (signalArrival h files) of
        Inl e \<Rightarrow> Inl e
      | Inr (arrived, others') \<Rightarrow>
         (case waitUntil (allInstancesDeparted h) others' (signalDeparture h arrived) of
            Inl e \<Rightarrow> Inl e
          | Inr (departed, _) \<Rightarrow> Inr departed))"
  using assms by (simp add: performSynchronization_def)

text \<open>
  An enabled hook that returns has signalled: with other processes that only add files,
  its arrival file and its departure file are there, and all instances have departed.
\<close>

lemma performSynchronization_signals:
  assumes en: "isHookEnabled env" and lc: "loadConfigs localRepo user env = Some h"
    and add: "only_add others"
    and ret: "performSynchronization localRepo user env others files = Inr files'"
  shows "syncFileArrival h |\<in>| fmdom files' \<and> syncFileDeparture h |\<in>| fmdom files' \<and>
     allInstancesDeparted h files'"
proof -
  from ret obtain arrived others' others'' where
    w1: "waitUntil (allInstancesArrived h) others (signalArrival h files)
        = Inr (arrived, others')"
    and w2: "waitUntil (allInstancesDeparted h) others' (signalDeparture h arrived)
        = Inr (files', others'')"
    unfolding performSynchronization_enabled [OF en lc]
    by (auto split: sum.splits)
  from waitUntil_only_add [OF add w1]
  have a: "fmdom (signalArrival h files) |\<subseteq>| fmdom arrived" and add': "only_add others'"
    by simp_all
  from waitUntil_only_add [OF add' w2]
  have d: "fmdom (signalDeparture h arrived) |\<subseteq>| fmdom files'"
    by simp
  have "syncFileArrival h |\<in>| fmdom arrived"
    using a signalArrival_creates [of h files] by blast
  then have "syncFileArrival h |\<in>| fmdom files'"
    using d signalDeparture_keeps [of arrived h] by blast
  moreover have "syncFileDeparture h |\<in>| fmdom files'"
    using d signalDeparture_creates [of h arrived] by blast
  ultimately show ?thesis
    using waitUntil_holds [OF w2] by simp
qed

text \<open>An enabled hook returns at once when its own two files complete the counts.\<close>

lemma performSynchronization_at_once:
  assumes "isHookEnabled env" and "loadConfigs localRepo user env = Some h"
    and "allInstancesArrived h (signalArrival h files)"
    and "allInstancesDeparted h (signalDeparture h (signalArrival h files))"
  shows "performSynchronization localRepo user env others files
     = Inr (signalDeparture h (signalArrival h files))"
  using assms by (simp add: performSynchronization_def waitUntil_now)

text \<open>An enabled hook fails the launch when no poll before the deadline sees all arrive.\<close>

lemma performSynchronization_timeout:
  assumes "isHookEnabled env" and "loadConfigs localRepo user env = Some h"
    and "\<forall>k \<le> length others.
           \<not> allInstancesArrived h (after_sleeps (take k others) (signalArrival h files))"
  shows "performSynchronization localRepo user env others files
     = Inl (Thrown SynchronizationTimeout)"
  using assms waitUntil_timeout_iff [of "allInstancesArrived h" others "signalArrival h files"]
  by (simp add: performSynchronization_def)

text \<open>An enabled hook is no no-op: on empty shared files it fails or leaves files behind.\<close>

lemma performSynchronization_not_noop:
  assumes "isHookEnabled env"
  shows "performSynchronization localRepo user env [] fmempty \<noteq> Inr fmempty"
proof (cases "loadConfigs localRepo user env")
  case None
  with assms show ?thesis by (simp add: performSynchronization_def)
next
  case (Some h)
  show ?thesis
  proof
    assume ret: "performSynchronization localRepo user env [] fmempty = Inr fmempty"
    have "only_add []" by (simp add: only_add_def)
    from performSynchronization_signals [OF assms Some this ret]
    show False by simp
  qed
qed

text \<open>
  C6. The hook takes part in a run if and only if \<^verbatim>\<open>SARUS_SLURM_GLOBAL_SYNC_HOOK=1\<close> is
  present in \<^verbatim>\<open>process.env\<close> and the four Slurm variables are all set. Without that,
  \<^verbatim>\<open>performSynchronization()\<close> returns without error and leaves the shared files as they are,
  whatever they are and whatever the other processes do; with it, it does not: the hook
  signals its arrival and its departure (both files are there when it returns, and all
  instances have departed), it returns at once when its own two files complete the counts,
  it fails the launch when no poll before the deadline sees all instances arrive, and it
  fails when \<^verbatim>\<open>SLURM_NTASKS\<close> cannot be read.
\<close>

theorem C6_hook_participates_iff_enabled:
  "((\<forall>others files. performSynchronization localRepo user env others files = Inr files)
      \<longleftrightarrow> \<not> (''SARUS_SLURM_GLOBAL_SYNC_HOOK=1'' \<in> set env \<and>
             lookupEnv env ''SLURM_JOB_ID'' \<noteq> None \<and> lookupEnv env ''SLURM_STEPID'' \<noteq> None \<and>
             lookupEnv env ''SLURM_PROCID'' \<noteq> None \<and> lookupEnv env ''SLURM_NTASKS'' \<noteq> None)) \<and>
   (isHookEnabled env \<and> loadConfigs localRepo user env = Some h \<and> only_add others \<and>
    performSynchronization localRepo user env others files = Inr files' \<longrightarrow>
      syncFileArrival h |\<in>| fmdom files' \<and> syncFileDeparture h |\<in>| fmdom files' \<and>
      allInstancesDeparted h files') \<and>
   (isHookEnabled env \<and> loadConfigs localRepo user env = Some h \<and>
    allInstancesArrived h (signalArrival h files) \<and>
    allInstancesDeparted h (signalDeparture h (signalArrival h files)) \<longrightarrow>
      performSynchronization localRepo user env others files
        = Inr (signalDeparture h (signalArrival h files))) \<and>
   (isHookEnabled env \<and> loadConfigs localRepo user env = Some h \<and>
    (\<forall>k \<le> length others.
        \<not> allInstancesArrived h (after_sleeps (take k others) (signalArrival h files))) \<longrightarrow>
      performSynchronization localRepo user env others files
        = Inl (Thrown SynchronizationTimeout)) \<and>
   (isHookEnabled env \<and> loadConfigs localRepo user env = None \<longrightarrow>
      performSynchronization localRepo user env others files
        = Inl (Thrown InvalidSlurmEnvironment))"
proof -
  have noop: "(\<forall>others files. performSynchronization localRepo user env others files = Inr files)
      \<longleftrightarrow> \<not> isHookEnabled env"
    using performSynchronization_not_noop [of env localRepo user]
    by (auto simp: performSynchronization_def)
  have invalid: "isHookEnabled env \<and> loadConfigs localRepo user env = None \<longrightarrow>
      performSynchronization localRepo user env others files
        = Inl (Thrown InvalidSlurmEnvironment)"
    by (simp add: performSynchronization_def)
  show ?thesis
    using noop [unfolded isHookEnabled_def] invalid
      performSynchronization_signals [of env localRepo user h others files files']
      performSynchronization_at_once [of env localRepo user h files others]
      performSynchronization_timeout [of env localRepo user h others files]
    by blast
qed

theorem C6_hook_participates_iff_enabled_witness:
  "\<not> isHookEnabled [] \<and>
   performSynchronization (Path True [''home'', ''user'', ''.sarus'']) (1000, 1000)
     [] [rank1_acts] fmempty = Inr fmempty \<and>
   \<not> isHookEnabled [''SARUS_SLURM_GLOBAL_SYNC_HOOK=1''] \<and>
   performSynchronization (Path True [''home'', ''user'', ''.sarus'']) (1000, 1000)
     [''SARUS_SLURM_GLOBAL_SYNC_HOOK=1''] [rank1_acts] fmempty = Inr fmempty \<and>
   \<not> isHookEnabled (tl test_env) \<and>
   performSynchronization (Path True [''home'', ''user'', ''.sarus'']) (1000, 1000)
     (tl test_env) [rank1_acts] fmempty = Inr fmempty \<and>
   isHookEnabled test_env \<and>
   loadConfigs (Path True [''home'', ''user'', ''.sarus'']) (1000, 1000) test_env
     = Some test_hook \<and>
   performSynchronization (Path True [''home'', ''user'', ''.sarus'']) (1000, 1000)
     test_env [] (rank1_acts fmempty)
     = Inr (signalDeparture test_hook (signalArrival test_hook (rank1_acts fmempty))) \<and>
   performSynchronization (Path True [''home'', ''user'', ''.sarus'']) (1000, 1000)
     test_env [] fmempty = Inl (Thrown SynchronizationTimeout)"
proof -
  let ?repo = "Path True [''home'', ''user'', ''.sarus'']"
  let ?user = "(1000, 1000) :: nat \<times> nat"
  have off1: "\<not> isHookEnabled []"
    by (simp add: isHookEnabled_def)
  have off2: "\<not> isHookEnabled [''SARUS_SLURM_GLOBAL_SYNC_HOOK=1'']"
    by (simp add: isHookEnabled_def lookupEnv_def parseEnvironmentVariable_def)
  have off3: "\<not> isHookEnabled (tl test_env)"
    by (simp add: isHookEnabled_def test_env_def)
  have en: "isHookEnabled test_env"
    by code_simp
  have lc: "loadConfigs ?repo ?user test_env = Some test_hook"
    by code_simp
  note noop = C6_hook_participates_iff_enabled
    [THEN conjunct1, THEN iffD2, folded isHookEnabled_def, rule_format]
  note at_once = C6_hook_participates_iff_enabled
    [THEN conjunct2, THEN conjunct2, THEN conjunct1, rule_format]
  note timeout = C6_hook_participates_iff_enabled
    [THEN conjunct2, THEN conjunct2, THEN conjunct2, THEN conjunct1, rule_format]
  have run1: "performSynchronization ?repo ?user [] [rank1_acts] fmempty = Inr fmempty"
    by (rule noop [OF off1])
  have run2: "performSynchronization ?repo ?user [''SARUS_SLURM_GLOBAL_SYNC_HOOK=1'']
      [rank1_acts] fmempty = Inr fmempty"
    by (rule noop [OF off2])
  have run3: "performSynchronization ?repo ?user (tl test_env) [rank1_acts] fmempty
      = Inr fmempty"
    by (rule noop [OF off3])
  have arrived: "allInstancesArrived test_hook (signalArrival test_hook (rank1_acts fmempty))"
    by (simp add: sync_example_defs rank1_acts_def)
  have departed: "allInstancesDeparted test_hook
      (signalDeparture test_hook (signalArrival test_hook (rank1_acts fmempty)))"
    by (simp add: sync_example_defs rank1_acts_def)
  have run4: "performSynchronization ?repo ?user test_env [] (rank1_acts fmempty)
      = Inr (signalDeparture test_hook (signalArrival test_hook (rank1_acts fmempty)))"
    by (rule at_once [where h = test_hook]) (simp add: en lc arrived departed)
  have alone: "\<not> allInstancesArrived test_hook (signalArrival test_hook fmempty)"
    by (simp add: sync_example_defs)
  have run5: "performSynchronization ?repo ?user test_env [] fmempty
      = Inl (Thrown SynchronizationTimeout)"
    by (rule timeout [where h = test_hook]) (simp add: en lc alone after_sleeps_def)
  show ?thesis
    using off1 off2 off3 en lc run1 run2 run3 run4 run5 by (simp only: simp_thms)
qed

text \<open>
  The run of the test with the hook enabled: rank 0 arrives, rank 1 arrives and departs
  while rank 0 sleeps, rank 0 departs, and the call returns with the four files in place.
\<close>

lemma performSynchronization_two_ranks:
  "isHookEnabled test_env \<and>
   loadConfigs (Path True [''home'', ''user'', ''.sarus'']) (1000, 1000) test_env
     = Some test_hook \<and>
   performSynchronization (Path True [''home'', ''user'', ''.sarus'']) (1000, 1000)
     test_env [rank1_acts] fmempty
     = Inr (signalDeparture test_hook (rank1_acts (signalArrival test_hook fmempty)))"
proof -
  have en: "isHookEnabled test_env"
    by code_simp
  have lc: "loadConfigs (Path True [''home'', ''user'', ''.sarus'']) (1000, 1000) test_env
      = Some test_hook"
    by code_simp
  have a0: "\<not> allInstancesArrived test_hook (signalArrival test_hook fmempty)"
    by (simp add: sync_example_defs)
  have a1: "allInstancesArrived test_hook (rank1_acts (signalArrival test_hook fmempty))"
    by (simp add: sync_example_defs rank1_acts_def)
  have d1: "allInstancesDeparted test_hook
      (signalDeparture test_hook (rank1_acts (signalArrival test_hook fmempty)))"
    by (simp add: sync_example_defs rank1_acts_def)
  show ?thesis
    by (simp add: performSynchronization_def en lc a0 a1 d1)
qed

section \<open>Properties of the SSH hook\<close>












section \<open>Properties of the glibc hook\<close>

text \<open>
  C8. When the container has no glibc installation, when it has no 64-bit
  \<^verbatim>\<open>libc.so.6\<close>, or when the glibc version of the container is greater than or equal to
  that of the host, \<^verbatim>\<open>injectGlibcLibrariesIfNecessary\<close> succeeds and returns the root file
  system as it was: nothing is moved and nothing is mounted.
\<close>

theorem C8_glibc_hook_noop:
  "(\<not> containerHasGlibc r \<longrightarrow> injectGlibcLibrariesIfNecessary hostLibraries r = Inr r) \<and>
   (findLibc (get64bitContainerLibraries r) = None \<longrightarrow>
      injectGlibcLibrariesIfNecessary hostLibraries r = Inr r) \<and>
   (findLibc hostLibraries = Some hostLibc \<and>
    findLibc (get64bitContainerLibraries r) = Some containerLibc \<and>
    glibcVersion hostLibc = Some hostVersion \<and>
    glibcVersion containerLibc = Some containerVersion \<and>
    version_le hostVersion containerVersion \<longrightarrow>
      injectGlibcLibrariesIfNecessary hostLibraries r = Inr r)"
  by (auto simp: injectGlibcLibrariesIfNecessary_def containerGlibcIsNewerOrSame_def Let_def)

lemmas glibc_example_defs =
  containerHasGlibc_def rootfs_with_glibc_def rootfs_without_glibc_def libc_of_def
  host_libraries_def findLibc_def get64bitContainerLibraries_def version_le_def

theorem C8_glibc_hook_noop_witness:
  "version_le (2, 31) (2, 36) \<and>
   injectGlibcLibrariesIfNecessary host_libraries (rootfs_with_glibc (2, 36))
     = Inr (rootfs_with_glibc (2, 36)) \<and>
   \<not> containerHasGlibc rootfs_without_glibc \<and>
   injectGlibcLibrariesIfNecessary host_libraries rootfs_without_glibc
     = Inr rootfs_without_glibc"
proof -
  have le: "version_le (2, 31) (2, 36)"
    by (simp add: version_le_def)
  have host: "findLibc host_libraries = Some (libc_of (Path True [''lib64'', ''libc.so.6'']) (2, 31))"
    by (simp add: glibc_example_defs)
  have cont: "findLibc (get64bitContainerLibraries (rootfs_with_glibc (2, 36)))
      = Some (libc_of (Path True [''usr'', ''lib'', ''libc.so.6'']) (2, 36))"
    by (simp add: glibc_example_defs)
  have hv: "glibcVersion (libc_of (Path True [''lib64'', ''libc.so.6'']) (2, 31)) = Some (2, 31)"
    by (simp add: libc_of_def)
  have cv: "glibcVersion (libc_of (Path True [''usr'', ''lib'', ''libc.so.6'']) (2, 36))
      = Some (2, 36)"
    by (simp add: libc_of_def)
  have none: "\<not> containerHasGlibc rootfs_without_glibc"
    by (simp add: glibc_example_defs)
  have newer: "injectGlibcLibrariesIfNecessary host_libraries (rootfs_with_glibc (2, 36))
      = Inr (rootfs_with_glibc (2, 36))"
    using C8_glibc_hook_noop [of "rootfs_with_glibc (2, 36)" host_libraries
        "libc_of (Path True [''lib64'', ''libc.so.6'']) (2, 31)"
        "libc_of (Path True [''usr'', ''lib'', ''libc.so.6'']) (2, 36)" "(2, 31)" "(2, 36)"]
      le host cont hv cv
    by blast
  have musl: "injectGlibcLibrariesIfNecessary host_libraries rootfs_without_glibc
      = Inr rootfs_without_glibc"
    using C8_glibc_hook_noop [of rootfs_without_glibc host_libraries] none by blast
  show ?thesis
    using le newer none musl by blast
qed

text \<open>
  The other branch: a container with glibc 2.17 on the host with glibc 2.31 gets the
  library of the host mounted over its own, which is moved aside first.
\<close>

lemma injectGlibcLibrariesIfNecessary_older_container:
  "injectGlibcLibrariesIfNecessary host_libraries (rootfs_with_glibc (2, 17)) =
     Inr ((rootfs_with_glibc (2, 17))
       \<lparr>movedFiles := [(Path True [''usr'', ''lib'', ''libc.so.6''],
                        Path True [''.sarus.bak.libc.so.6''])],
        bindMounts := [(Path True [''lib64'', ''libc.so.6''],
                        Path True [''usr'', ''lib'', ''libc.so.6''])]\<rparr>)"
  by (simp add: injectGlibcLibrariesIfNecessary_def glibc_example_defs
      containerGlibcIsNewerOrSame_def verifyThatHostAndContainerGlibcAreABICompatible_def
      replaceGlibcLibrariesInContainer_def replaceLibrary_def)

end
